theory Spec2Isabelle
  imports Main "HOL-Library.Sublist" "HOL-Library.AList" "HOL-Library.Char_ord"
    "HOL-Library.List_Lexorder"
begin

section \<open>Strings and \<open>fmt.Sprintf\<close>\<close>

text \<open>
  A Go \<open>string\<close> is modelled as a \<^typ>\<open>string\<close>, one \<^typ>\<open>char\<close> per character of the
  text. The regular expressions of \<open>terraform/main.go\<close> work on characters; for ASCII
  module text (what the examples and the patterns of the program consist of) a character is
  a byte.
\<close>

abbreviation bslash :: char where
  "bslash \<equiv> CHR 0x5C"

abbreviation newline :: char where
  "newline \<equiv> CHR 0x0A"

text \<open>
  \<open>fmt.Sprintf\<close> for the verb \<open>%s\<close>, the only verb of the patterns that
  \<open>processUsage\<close> builds: each \<open>%s\<close> is replaced by the next argument, every other
  character is copied. An argument is never scanned for verbs.
\<close>

fun Sprintf :: "string \<Rightarrow> string list \<Rightarrow> string" where
  "Sprintf [] args = []"
| "Sprintf [c] args = [c]"
| "Sprintf (c # d # fmt) args =
     (if c = CHR ''%'' \<and> d = CHR ''s''
      then (case args of
              [] \<Rightarrow> ''%!s(MISSING)'' @ Sprintf fmt []
            | a # as \<Rightarrow> a @ Sprintf fmt as)
      else c # Sprintf (d # fmt) args)"

section \<open>Regular expressions (package \<open>regexp\<close>)\<close>

text \<open>
  The syntax tree of the regular expressions that occur in the program: literals, \<open>.\<close>
  (any character but newline), \<open>\W\<close>, a character range, concatenation, the greedy star
  and numbered capture groups. \<open>x+\<close> is \<open>xx*\<close>.
\<close>

datatype regex =
    Lit char
  | AnyCharNotNL
  | NotWord
  | CharRange char char
  | EmptyMatch
  | Cat regex regex
  | Star regex
  | Capture nat regex

definition OneOrMore :: "regex \<Rightarrow> regex" where
  "OneOrMore r = Cat r (Star r)"

text \<open>The word characters of \<open>\w\<close>: \<open>[0-9A-Za-z_]\<close>.\<close>

definition is_word :: "char \<Rightarrow> bool" where
  "is_word c \<longleftrightarrow>
     (CHR ''0'' \<le> c \<and> c \<le> CHR ''9'') \<or> (CHR ''A'' \<le> c \<and> c \<le> CHR ''Z'') \<or>
     (CHR ''a'' \<le> c \<and> c \<le> CHR ''z'') \<or> c = CHR ''_''"

type_synonym caps = "nat \<Rightarrow> string option"

text \<open>
  \<open>matches r (s, c)\<close> lists, in the order of preference of a backtracking matcher (greedy
  operators try the longer alternative first), every way in which \<open>r\<close> matches a prefix of
  \<open>s\<close>: the rest of the input after the match and the capture groups set so far. The head
  of the list is the match that \<open>regexp\<close> reports at this position (leftmost-first
  semantics). An iteration of a star that consumes nothing is not repeated.
\<close>

fun matches :: "regex \<Rightarrow> string \<times> caps \<Rightarrow> (string \<times> caps) list" where
  "matches (Lit a) (s, c) =
     (case s of [] \<Rightarrow> [] | x # xs \<Rightarrow> if x = a then [(xs, c)] else [])"
| "matches AnyCharNotNL (s, c) =
     (case s of [] \<Rightarrow> [] | x # xs \<Rightarrow> if x \<noteq> newline then [(xs, c)] else [])"
| "matches NotWord (s, c) =
     (case s of [] \<Rightarrow> [] | x # xs \<Rightarrow> if \<not> is_word x then [(xs, c)] else [])"
| "matches (CharRange lo hi) (s, c) =
     (case s of [] \<Rightarrow> [] | x # xs \<Rightarrow> if lo \<le> x \<and> x \<le> hi then [(xs, c)] else [])"
| "matches EmptyMatch (s, c) = [(s, c)]"
| "matches (Cat r1 r2) (s, c) = concat (map (matches r2) (matches r1 (s, c)))"
| "matches (Star r) (s, c) =
     concat (map (\<lambda>st. if length (fst st) < length s then matches (Star r) st else [])
                 (matches r (s, c))) @ [(s, c)]"
| "matches (Capture n r) (s, c) =
     map (\<lambda>(s', c'). (s', c'(n \<mapsto> take (length s - length s') s))) (matches r (s, c))"

text \<open>
  \<open>regexp.MustCompile\<close> on the fragment of the syntax that the patterns of
  \<open>processUsage\<close> use: \<open>\.\<close> is a literal dot, \<open>\W\<close> a non-word character, \<open>.\<close> any
  character but newline, and a character that is no metacharacter stands for itself. On
  any other pattern (another operator, or a pattern that \<open>MustCompile\<close> rejects with a
  panic) the model gives \<open>None\<close>.
\<close>

definition regexp_meta :: "char list" where
  "regexp_meta = [bslash, CHR ''.'', CHR ''+'', CHR ''*'', CHR ''?'', CHR ''('', CHR '')'',
     CHR ''|'', CHR ''['', CHR '']'', CHR ''{'', CHR ''}'', CHR ''^'', CHR ''$'']"

fun compile :: "string \<Rightarrow> regex option" where
  "compile [] = Some EmptyMatch"
| "compile (c # cs) =
     (if c = bslash then
        (case cs of
           [] \<Rightarrow> None
         | d # ds \<Rightarrow>
             if d = CHR ''.'' then map_option (Cat (Lit d)) (compile ds)
             else if d = CHR ''W'' then map_option (Cat NotWord) (compile ds)
             else None)
      else if c = CHR ''.'' then map_option (Cat AnyCharNotNL) (compile cs)
      else if c \<in> set regexp_meta then None
      else map_option (Cat (Lit c)) (compile cs))"

text \<open>
  \<open>FindAllStringIndex(content, -1)\<close>: the successive non-overlapping matches, each the
  leftmost match at or after the end of the one before; an empty match that touches the
  end of the preceding match is dropped. \<open>pos\<close> is the position where the search goes on,
  \<open>prevMatchEnd\<close> the end of the last match. A match at \<open>pos\<close> ends at \<open>e \<ge> pos\<close>, and
  the search goes on at \<open>e\<close>, or one character further after an empty match.
\<close>

function FindAllStringIndex_from ::
  "regex \<Rightarrow> string \<Rightarrow> nat \<Rightarrow> nat option \<Rightarrow> (nat \<times> nat) list" where
  "FindAllStringIndex_from re s pos prevMatchEnd =
     (if length s < pos then []
      else case matches re (drop pos s, Map.empty) of
             [] \<Rightarrow> FindAllStringIndex_from re s (Suc pos) prevMatchEnd
           | (rest, _) # _ \<Rightarrow>
               (let e = length s - length rest in
                  (if e \<le> pos \<and> prevMatchEnd = Some pos then [] else [(pos, e)]) @
                  FindAllStringIndex_from re s (if e \<le> pos then Suc pos else e) (Some e)))"
  by pat_completeness auto
termination
  by (relation "measure (\<lambda>(re, s, pos, prev). Suc (length s) - pos)") auto

definition FindAllStringIndex :: "regex \<Rightarrow> string \<Rightarrow> (nat \<times> nat) list" where
  "FindAllStringIndex re s = FindAllStringIndex_from re s 0 None"

text \<open>
  \<open>FindStringSubmatch\<close>: the text of the leftmost match and of its \<open>n\<close> capture groups
  (the empty string for a group that took no part), or the empty list (\<open>nil\<close>) when the
  expression matches nowhere.
\<close>

function leftmost :: "regex \<Rightarrow> string \<Rightarrow> nat \<Rightarrow> (nat \<times> nat \<times> caps) option" where
  "leftmost re s pos =
     (if length s < pos then None
      else case matches re (drop pos s, Map.empty) of
             [] \<Rightarrow> leftmost re s (Suc pos)
           | (rest, c) # _ \<Rightarrow> Some (pos, length s - length rest, c))"
  by pat_completeness auto
termination
  by (relation "measure (\<lambda>(re, s, pos). Suc (length s) - pos)") auto

definition FindStringSubmatch :: "regex \<Rightarrow> nat \<Rightarrow> string \<Rightarrow> string list" where
  "FindStringSubmatch re n s =
     (case leftmost re s 0 of
        None \<Rightarrow> []
      | Some (b, e, c) \<Rightarrow>
          take (e - b) (drop b s) #
          map (\<lambda>i. case c i of None \<Rightarrow> [] | Some g \<Rightarrow> g) [1..<Suc n])"

section \<open>Parsed configuration (package \<open>hclwrite\<close>)\<close>

text \<open>
  What \<open>hclwrite.ParseConfig\<close> hands to the program. The parser itself is a library: the
  program reads from its result the top-level blocks in source order (\<open>Body().Blocks()\<close>),
  of each block the type keyword, the labels and the attributes of its body
  (\<open>Body().Attributes()\<close>, a Go map from attribute name to attribute), of an attribute the
  tokens of its expression (\<open>Expr().BuildTokens(nil)\<close>), and the bytes of the whole file
  (\<open>Bytes()\<close>). \<open>Bytes()\<close> writes the tokens of the file through the formatter of
  \<open>hclwrite\<close>: it is the source text with its spacing normalised (no spaces around the
  dot of an attribute access, the \<open>=\<close> of consecutive attributes aligned), and it is the
  source text itself only when that is formatted already. The field \<open>Bytes\<close> is this
  rendered text.
\<close>

datatype TokenType = TokenOQuote | TokenQuotedLit | TokenCQuote | TokenOther

record Token =
  TokType :: TokenType
  TokBytes :: string

record Attribute =
  Expr :: "Token list"

record Block =
  Type :: string
  Labels :: "string list"
  Attributes :: "(string \<times> Attribute) list"

record File =
  Blocks :: "Block list"
  Bytes :: string

section \<open>Go maps on a heap\<close>

text \<open>
  A Go map is a reference: copying a \<open>ModuleUsage\<close> (every method has a value receiver)
  copies the four references, not the maps. The heap holds the maps, a map variable is an
  address. A \<open>map[string]int\<close> is an association list: its keys are distinct, and the
  order of the list is the order in which \<open>range\<close> happens to visit the entries.
\<close>

type_synonym gomap = "(string \<times> int) list"

record heap =
  next_addr :: nat
  cells :: "nat \<Rightarrow> gomap"

text \<open>\<open>map[string]int{}\<close>: a new empty map.\<close>

definition make_map :: "heap \<Rightarrow> nat \<times> heap" where
  "make_map h =
     (next_addr h, h\<lparr>next_addr := Suc (next_addr h), cells := (cells h)(next_addr h := [])\<rparr>)"

text \<open>\<open>items[k] = v\<close>.\<close>

definition map_store :: "nat \<Rightarrow> string \<Rightarrow> int \<Rightarrow> heap \<Rightarrow> heap" where
  "map_store items k v h = h\<lparr>cells := (cells h)(items := AList.update k v (cells h items))\<rparr>"

text \<open>
  A run that does not return: a method called on the \<open>nil\<close> file, an index beyond the
  labels of a block, or a pattern that the fragment of \<open>compile\<close> does not cover.
\<close>

datatype failure = NilPointer | IndexOutOfRange | RegexpOutsideFragment

text \<open>
  The values of type \<open>error\<close> that the program returns: the errors of \<open>os.ReadDir\<close> and
  \<open>os.ReadFile\<close>, and \<open>errors.New\<close> of a message.
\<close>

datatype go_error = ReadDirError | ReadFileError | ErrorString string

text \<open>Sequencing: a panic ends the run.\<close>

definition bind :: "failure + 'a \<Rightarrow> ('a \<Rightarrow> failure + 'b) \<Rightarrow> failure + 'b" where
  "bind x f = (case x of Inl e \<Rightarrow> Inl e | Inr v \<Rightarrow> f v)"

text \<open>
  The struct \<open>ModuleUsage\<close>; its unexported field \<open>file\<close>, a pointer that is \<open>nil\<close>
  until \<open>NewModuleUsage\<close> has parsed the module, is the field \<open>parsed\<close> here.
\<close>

record ModuleUsage =
  Path :: string
  Variables :: nat
  Locals :: nat
  Modules :: nat
  DataBlocks :: nat
  parsed :: "File option"

section \<open>\<open>LoadTfModule\<close>\<close>

text \<open>
  The file system as \<open>LoadTfModule\<close> sees it: a directory is a list of named entries,
  each a regular file with its content or something that \<open>os.ReadFile\<close> cannot read (a
  sub-directory, a file without permission). \<open>os.ReadDir\<close> returns the entries sorted by
  file name; \<open>os.ReadFile(filepath.Join(path, name))\<close> reads the entry \<open>name\<close> of the
  directory \<open>path\<close>.
\<close>

datatype node = RegularFile string | Unreadable

type_synonym directory = "(string \<times> node) list"

type_synonym filesystem = "(string \<times> directory) list"

definition os_ReadDir :: "filesystem \<Rightarrow> string \<Rightarrow> go_error + string list" where
  "os_ReadDir fs path =
     (case map_of fs path of None \<Rightarrow> Inl ReadDirError | Some es \<Rightarrow> Inr (sort (map fst es)))"

definition os_ReadFile :: "filesystem \<Rightarrow> string \<Rightarrow> string \<Rightarrow> go_error + string" where
  "os_ReadFile fs path name =
     (case map_of fs path of
        None \<Rightarrow> Inl ReadFileError
      | Some es \<Rightarrow>
          (case map_of es name of
             Some (RegularFile data) \<Rightarrow> Inr data
           | _ \<Rightarrow> Inl ReadFileError))"

text \<open>
  \<open>filepath.Ext\<close>: the suffix from the last dot of the last path element on, empty when
  that element has no dot. The scan runs from the end of the path backwards.
\<close>

fun Ext_scan :: "string \<Rightarrow> string \<Rightarrow> string" where
  "Ext_scan [] tail = []"
| "Ext_scan (c # front) tail =
     (if c = CHR ''/'' then []
      else if c = CHR ''.'' then c # tail
      else Ext_scan front (c # tail))"

definition filepath_Ext :: "string \<Rightarrow> string" where
  "filepath_Ext path = Ext_scan (rev path) []"

fun LoadTfModule_loop ::
  "filesystem \<Rightarrow> string \<Rightarrow> string list \<Rightarrow> string \<Rightarrow> string \<times> go_error option" where
  "LoadTfModule_loop fs path [] out = (out, None)"
| "LoadTfModule_loop fs path (name # files) out =
     (if filepath_Ext name = ''.tf'' then
        (case os_ReadFile fs path name of
           Inl err \<Rightarrow> (out, Some err)
         | Inr data \<Rightarrow> LoadTfModule_loop fs path files ((out @ [newline]) @ data))
      else LoadTfModule_loop fs path files out)"

definition LoadTfModule :: "filesystem \<Rightarrow> string \<Rightarrow> string \<times> go_error option" where
  "LoadTfModule fs path =
     (case os_ReadDir fs path of
        Inl err \<Rightarrow> ([], Some err)
      | Inr files \<Rightarrow> LoadTfModule_loop fs path files [])"

section \<open>\<open>parseModuleSource\<close>\<close>

text \<open>
  The expression \<open>(.+)\?ref=v([0-9]+(\.[0-9]+)*(-.*)*)\<close> with its four capture groups.
\<close>

definition digits :: regex where
  "digits = OneOrMore (CharRange CHR ''0'' CHR ''9'')"

definition literal :: "string \<Rightarrow> regex" where
  "literal s = foldr (\<lambda>c. Cat (Lit c)) s EmptyMatch"

definition moduleSourceRegexp :: regex where
  "moduleSourceRegexp =
     Cat (Capture 1 (OneOrMore AnyCharNotNL))
       (Cat (literal ''?ref=v'')
         (Capture 2
           (Cat digits
             (Cat (Star (Capture 3 (Cat (Lit CHR ''.'') digits)))
                  (Star (Capture 4 (Cat (Lit CHR ''-'') (Star AnyCharNotNL))))))))"

definition parseModuleSource :: "Attribute \<Rightarrow> string \<times> string" where
  "parseModuleSource a =
     (let tokens = Expr a in
      if length tokens = 3 \<and>
         TokType (tokens ! 0) = TokenOQuote \<and>
         TokType (tokens ! 1) = TokenQuotedLit \<and>
         TokType (tokens ! 2) = TokenCQuote
      then
        (let source = TokBytes (tokens ! 1);
             matched = FindStringSubmatch moduleSourceRegexp 4 source
         in if length matched = 0 then (source, [])
            else (matched ! 1, matched ! 2))
      else ([], []))"

section \<open>\<open>countPattern\<close> and \<open>processUsage\<close>\<close>

definition countPattern :: "string \<Rightarrow> string \<Rightarrow> failure + int" where
  "countPattern content pattern =
     (case compile pattern of
        None \<Rightarrow> Inl RegexpOutsideFragment
      | Some regex \<Rightarrow> Inr (int (length (FindAllStringIndex regex content))))"

text \<open>\<open>block.Labels()[i]\<close> panics when the block has no label \<open>i\<close>.\<close>

definition label :: "Block \<Rightarrow> nat \<Rightarrow> failure + string" where
  "label block i =
     (if i < length (Labels block) then Inr (Labels block ! i) else Inl IndexOutOfRange)"

text \<open>The loop over the attributes of a \<open>locals\<close> block.\<close>

fun processLocals :: "ModuleUsage \<Rightarrow> string \<Rightarrow> string list \<Rightarrow> heap \<Rightarrow> failure + heap" where
  "processLocals m bodyStr [] h = Inr h"
| "processLocals m bodyStr (attrib # attribs) h =
     bind (countPattern bodyStr
             (Sprintf (''local'' @ [bslash] @ ''.%s'' @ [bslash] @ ''W'') [attrib]))
       (\<lambda>n. processLocals m bodyStr attribs (map_store (Locals m) attrib n h))"

text \<open>The body of the loop over the blocks: three \<open>if\<close> statements in sequence.\<close>

definition processBlock :: "ModuleUsage \<Rightarrow> string \<Rightarrow> Block \<Rightarrow> heap \<Rightarrow> failure + heap" where
  "processBlock m bodyStr block h0 =
     (let blockType = Type block in
      bind (if blockType = ''data'' then
              bind (label block 0) (\<lambda>data_type.
              bind (label block 1) (\<lambda>name.
                let key = Sprintf ''data.%s.%s'' [data_type, name] in
                bind (countPattern bodyStr key) (\<lambda>n.
                Inr (map_store (DataBlocks m) key n h0))))
            else Inr h0) (\<lambda>h1.
      bind (if blockType = ''module'' then
              bind (label block 0) (\<lambda>name.
              bind (countPattern bodyStr (Sprintf (''module'' @ [bslash] @ ''.%s'') [name])) (\<lambda>n.
              Inr (map_store (Modules m) name n h1)))
            else Inr h1) (\<lambda>h2.
      if blockType = ''variable'' then
        bind (label block 0) (\<lambda>name.
        bind (countPattern bodyStr
                (Sprintf (''var'' @ [bslash] @ ''.%s'' @ [bslash] @ ''W'') [name])) (\<lambda>n.
        Inr (map_store (Variables m) name n h2)))
      else if blockType = ''locals'' then
        processLocals m bodyStr (map fst (Attributes block)) h2
      else Inr h2)))"

fun processBlocks :: "ModuleUsage \<Rightarrow> string \<Rightarrow> Block list \<Rightarrow> heap \<Rightarrow> failure + heap" where
  "processBlocks m bodyStr [] h = Inr h"
| "processBlocks m bodyStr (block # blocks) h =
     bind (processBlock m bodyStr block h) (processBlocks m bodyStr blocks)"

text \<open>
  \<open>processUsage\<close> returns \<open>nil\<close> whenever it returns: \<open>Inr\<close> is that return with the heap
  it leaves, \<open>Inl\<close> a panic.
\<close>

definition processUsage :: "ModuleUsage \<Rightarrow> heap \<Rightarrow> failure + heap" where
  "processUsage m h =
     (case parsed m of
        None \<Rightarrow> Inl NilPointer
      | Some f \<Rightarrow> processBlocks m (Bytes f) (Blocks f) h)"

text \<open>
  \<open>NewModuleUsage\<close>, with \<open>hclwrite.ParseConfig\<close> as a parameter: it gives the text of
  the diagnostics or the parsed file. \<open>processUsage\<close> then searches the rendered text
  \<open>Bytes\<close> of the parsed file, not the text \<open>src\<close> that was loaded.
\<close>

definition NewModuleUsage ::
  "(string \<Rightarrow> string + File) \<Rightarrow> filesystem \<Rightarrow> string \<Rightarrow> heap \<Rightarrow>
   failure + heap \<times> ModuleUsage option \<times> go_error option" where
  "NewModuleUsage ParseConfig fs path h0 =
     (let (v, h1) = make_map h0;
          (l, h2) = make_map h1;
          (mo, h3) = make_map h2;
          (d, h4) = make_map h3;
          m = \<lparr>Path = path, Variables = v, Locals = l, Modules = mo, DataBlocks = d,
               parsed = None\<rparr>
      in case LoadTfModule fs path of
           (src, Some err) \<Rightarrow> Inr (h4, None, Some err)
         | (src, None) \<Rightarrow>
             (case ParseConfig src of
                Inl diags \<Rightarrow> Inr (h4, None, Some (ErrorString (path @ '':'' @ diags)))
              | Inr f \<Rightarrow>
                  bind (processUsage (m\<lparr>parsed := Some f\<rparr>) h4) (\<lambda>h5.
                  Inr (h5, Some (m\<lparr>parsed := Some f\<rparr>), None))))"

section \<open>Reporting\<close>

type_synonym DisplayType = string

definition DisplayType_All :: DisplayType where
  "DisplayType_All = ''all''"

definition DisplayType_Variables :: DisplayType where
  "DisplayType_Variables = ''variables''"

definition DisplayType_Locals :: DisplayType where
  "DisplayType_Locals = ''locals''"

text \<open>
  \<open>filterUnusedOnly\<close>: the \<open>range\<close> loop visits the entries that the map has when the
  loop starts, reads each from the map as it is then (an entry deleted before the loop
  reaches it is not produced), and deletes it when its count is positive. The function
  returns the reference it was given.
\<close>

fun filterUnusedOnly_loop :: "string list \<Rightarrow> gomap \<Rightarrow> gomap" where
  "filterUnusedOnly_loop [] items = items"
| "filterUnusedOnly_loop (name # names) items =
     (case map_of items name of
        None \<Rightarrow> filterUnusedOnly_loop names items
      | Some count \<Rightarrow>
          filterUnusedOnly_loop names (if count > 0 then AList.delete name items else items))"

definition filterUnusedOnly :: "nat \<Rightarrow> heap \<Rightarrow> nat \<times> heap" where
  "filterUnusedOnly items h =
     (items,
      h\<lparr>cells := (cells h)
          (items := filterUnusedOnly_loop (map fst (cells h items)) (cells h items))\<rparr>)"

text \<open>
  What the program prints, one value per \<open>fmt.Printf\<close>: the heading with the module path,
  the three counts, and a line \<open>name : count\<close> (in \<open>DisplayUnusedSimple\<close>, a line
  \<open>name used count times\<close> under a heading per kind).
\<close>

datatype printed =
    ModuleHeading string
  | VariablesFound int
  | ModulesFound int
  | LocalsFound int
  | Entry string int
  | KindHeading string string
  | UsedTimes string string int

definition entries :: "nat \<Rightarrow> heap \<Rightarrow> printed list" where
  "entries items h = map (\<lambda>(name, count). Entry name count) (cells h items)"

definition len :: "nat \<Rightarrow> heap \<Rightarrow> int" where
  "len items h = int (length (cells h items))"

text \<open>The part of \<open>Display\<close> after the \<open>switch\<close>.\<close>

definition Display_print ::
  "ModuleUsage \<Rightarrow> DisplayType \<Rightarrow> bool \<Rightarrow> nat \<Rightarrow> nat \<Rightarrow> nat \<Rightarrow> heap \<Rightarrow> printed list" where
  "Display_print m dType unusedOnly variables locals modules h =
     (if \<not> unusedOnly \<or> (unusedOnly \<and> len locals h + len variables h > 0)
      then [ModuleHeading (Path m)] else []) @
     (if dType = DisplayType_All \<or> dType = DisplayType_Variables then
        (if \<not> unusedOnly \<or> (unusedOnly \<and> len variables h > 0)
         then [VariablesFound (len variables h), ModulesFound (len modules h)] else []) @
        entries variables h
      else []) @
     (if dType = DisplayType_All \<or> dType = DisplayType_Locals then
        (if \<not> unusedOnly \<or> (unusedOnly \<and> len locals h > 0)
         then [LocalsFound (len locals h)] else []) @
        entries locals h @ entries modules h
      else [])"

definition Display ::
  "ModuleUsage \<Rightarrow> DisplayType \<Rightarrow> bool \<Rightarrow> heap \<Rightarrow> heap \<times> printed list \<times> go_error option" where
  "Display m dType unusedOnly h0 =
     (let (variables, h1) = make_map h0;
          (locals, h2) = make_map h1;
          (modules, h3) = make_map h2
      in
        if dType = DisplayType_Locals then
          (let locals = Locals m;
               (locals, h4) = (if unusedOnly then filterUnusedOnly locals h3 else (locals, h3))
           in (h4, Display_print m dType unusedOnly variables locals modules h4, None))
        else if dType = DisplayType_Variables then
          (let variables = Variables m;
               (variables, h4) =
                 (if unusedOnly then filterUnusedOnly variables h3 else (variables, h3))
           in (h4, Display_print m dType unusedOnly variables locals modules h4, None))
        else if dType = DisplayType_All then
          (let locals = Locals m;
               variables = Variables m;
               (locals, h4) = (if unusedOnly then filterUnusedOnly locals h3 else (locals, h3));
               (variables, h5) =
                 (if unusedOnly then filterUnusedOnly variables h4 else (variables, h4))
           in (h5, Display_print m dType unusedOnly variables locals modules h5, None))
        else
          (h3, [], Some (ErrorString (Sprintf ''%s is an invalid display Type'' [dType]))))"

definition DisplayLocals :: "ModuleUsage \<Rightarrow> bool \<Rightarrow> heap \<Rightarrow> heap \<times> printed list \<times> go_error option" where
  "DisplayLocals m unusedOnly h = Display m DisplayType_Locals unusedOnly h"

definition DisplayVariables :: "ModuleUsage \<Rightarrow> bool \<Rightarrow> heap \<Rightarrow> heap \<times> printed list \<times> go_error option" where
  "DisplayVariables m unusedOnly h = Display m DisplayType_Variables unusedOnly h"

definition DisplayUnusedSimple ::
  "ModuleUsage \<Rightarrow> DisplayType \<Rightarrow> bool \<Rightarrow> heap \<Rightarrow> heap \<times> printed list \<times> go_error option" where
  "DisplayUnusedSimple m dType unusedOnly h0 =
     (let (locals, h1) = filterUnusedOnly (Locals m) h0;
          (variables, h2) = filterUnusedOnly (Variables m) h1;
          (modules, h3) = filterUnusedOnly (Modules m) h2
      in (h3,
          [KindHeading ''Variables'' (Path m)] @
          map (\<lambda>(name, count). UsedTimes ''Variable '' name count) (cells h3 variables) @
          [KindHeading ''Locals'' (Path m)] @
          map (\<lambda>(name, count). UsedTimes [] name count) (cells h3 locals) @
          [KindHeading ''Modules'' (Path m)] @
          map (\<lambda>(name, count). UsedTimes [] name count) (cells h3 modules),
          None))"

section \<open>Notions of the specification\<close>

text \<open>
  A name that the fragment of \<open>compile\<close> reads as itself: no character of it is a
  metacharacter of the regular expressions. Every Terraform identifier (letters, digits,
  \<open>_\<close> and \<open>-\<close>) is such a name.
\<close>

definition plain_name :: "string \<Rightarrow> bool" where
  "plain_name s = list_all (\<lambda>c. c \<notin> set regexp_meta) s"

text \<open>
  A block as Terraform has it: a \<open>data\<close> block has its two labels, a \<open>module\<close> and a
  \<open>variable\<close> block its label, and the names are plain.
\<close>

definition terraform_block :: "Block \<Rightarrow> bool" where
  "terraform_block b \<longleftrightarrow>
     (Type b = ''data'' \<longrightarrow>
        2 \<le> length (Labels b) \<and> plain_name (Labels b ! 0) \<and> plain_name (Labels b ! 1)) \<and>
     (Type b = ''module'' \<longrightarrow> 1 \<le> length (Labels b) \<and> plain_name (Labels b ! 0)) \<and>
     (Type b = ''variable'' \<longrightarrow> 1 \<le> length (Labels b) \<and> plain_name (Labels b ! 0)) \<and>
     (Type b = ''locals'' \<longrightarrow> list_all plain_name (map fst (Attributes b)))"

text \<open>
  Counting occurrences from left to right without overlap, as the Reference Counter's
  contract has it (and as \<open>strings.Count\<close> does): \<open>P\<close> tells whether an occurrence
  starts at the head of the text, \<open>w\<close> is the number of characters an occurrence takes,
  and \<open>k\<close> the number of characters that still belong to the occurrence counted last.
\<close>

fun count_from :: "(string \<Rightarrow> bool) \<Rightarrow> nat \<Rightarrow> nat \<Rightarrow> string \<Rightarrow> nat" where
  "count_from P w k [] = 0"
| "count_from P w k (c # s) =
     (if k = 0 \<and> P (c # s) then Suc (count_from P w (w - 1) s) else count_from P w (k - 1) s)"

text \<open>The number of occurrences of the literal text \<open>lit\<close> in \<open>text\<close>.\<close>

definition occurrences :: "string \<Rightarrow> string \<Rightarrow> nat" where
  "occurrences lit text = count_from (prefix lit) (length lit) 0 text"

text \<open>
  The literal text \<open>lit\<close> starts the text and a character that is no word character
  follows it immediately.
\<close>

definition then_nonword :: "string \<Rightarrow> string \<Rightarrow> bool" where
  "then_nonword lit s \<longleftrightarrow>
     prefix lit s \<and> (case drop (length lit) s of [] \<Rightarrow> False | c # _ \<Rightarrow> \<not> is_word c)"

text \<open>
  The number of occurrences of \<open>lit\<close> that a non-word character follows; the occurrence
  takes that character with it.
\<close>

definition occurrences_then_nonword :: "string \<Rightarrow> string \<Rightarrow> nat" where
  "occurrences_then_nonword lit text = count_from (then_nonword lit) (Suc (length lit)) 0 text"

text \<open>
  The number of all positions of the text at which an occurrence starts, whether the
  occurrences overlap or not.
\<close>

fun count_where :: "(string \<Rightarrow> bool) \<Rightarrow> string \<Rightarrow> nat" where
  "count_where P [] = 0"
| "count_where P (c # s) = (if P (c # s) then 1 else 0) + count_where P s"

text \<open>No occurrence starts at any of the first \<open>n\<close> positions of the text.\<close>

fun none_within :: "(string \<Rightarrow> bool) \<Rightarrow> nat \<Rightarrow> string \<Rightarrow> bool" where
  "none_within P 0 s = True"
| "none_within P (Suc n) [] = True"
| "none_within P (Suc n) (c # s) = (\<not> P (c # s) \<and> none_within P n s)"

text \<open>
  No two occurrences in the text overlap: where an occurrence starts, none starts at the
  next \<open>w - 1\<close> positions.
\<close>

fun apart :: "(string \<Rightarrow> bool) \<Rightarrow> nat \<Rightarrow> string \<Rightarrow> bool" where
  "apart P w [] = True"
| "apart P w (c # s) = ((if P (c # s) then none_within P (w - 1) s else True) \<and> apart P w s)"

text \<open>
  All the positions of the text at which the literal text \<open>lit\<close> starts, overlapping or
  not.
\<close>

fun count_positions :: "string \<Rightarrow> string \<Rightarrow> nat" where
  "count_positions lit [] = 0"
| "count_positions lit (c # s) = (if prefix lit (c # s) then 1 else 0) + count_positions lit s"

text \<open>
  A key read as a pattern: a dot of the key stands for any character but newline, every
  other character for itself.
\<close>

fun key_matches :: "string \<Rightarrow> string \<Rightarrow> bool" where
  "key_matches [] s = True"
| "key_matches (k # ks) [] = False"
| "key_matches (k # ks) (c # s) =
     ((if k = CHR ''.'' then c \<noteq> newline else c = k) \<and> key_matches ks s)"

definition key_regex :: "string \<Rightarrow> regex" where
  "key_regex key = foldr (\<lambda>c. Cat (if c = CHR ''.'' then AnyCharNotNL else Lit c)) key EmptyMatch"

text \<open>
  A map of reference counts: the keys are distinct, as in every Go map, and no count is
  negative, as in every map that \<open>processUsage\<close> has filled.
\<close>

definition count_map :: "gomap \<Rightarrow> bool" where
  "count_map items \<longleftrightarrow> distinct (map fst items) \<and> (\<forall>(k, v) \<in> set items. 0 \<le> v)"

text \<open>The value of the attribute is a single quoted string literal.\<close>

definition single_quoted_literal :: "Attribute \<Rightarrow> bool" where
  "single_quoted_literal a \<longleftrightarrow>
     (case Expr a of
        [q1, lit, q2] \<Rightarrow>
          TokType q1 = TokenOQuote \<and> TokType lit = TokenQuotedLit \<and> TokType q2 = TokenCQuote
      | _ \<Rightarrow> False)"

text \<open>
  The contents of files joined as the claim about the loader has it: one newline between
  two consecutive files, none before the first and none after the last.
\<close>

fun joined :: "string list \<Rightarrow> string" where
  "joined [] = []"
| "joined [d] = d"
| "joined (d # ds) = d @ newline # joined ds"

text \<open>The name of a configuration file: its extension is \<open>.tf\<close>.\<close>

definition is_tf :: "string \<Rightarrow> bool" where
  "is_tf name \<longleftrightarrow> filepath_Ext name = ''.tf''"

text \<open>The entry \<open>name\<close> of a directory is a regular file that can be read.\<close>

definition readable :: "directory \<Rightarrow> string \<Rightarrow> bool" where
  "readable es name = (case map_of es name of Some (RegularFile d) \<Rightarrow> True | _ \<Rightarrow> False)"

text \<open>The content of the regular file \<open>name\<close> of a directory.\<close>

definition file_data :: "directory \<Rightarrow> string \<Rightarrow> string" where
  "file_data es name = (case map_of es name of Some (RegularFile d) \<Rightarrow> d | _ \<Rightarrow> [])"

section \<open>The writes of a run\<close>

text \<open>The key of a \<open>data\<close> block: \<open>data\<close>, its type and its name, joined by dots.\<close>

definition data_key :: "Block \<Rightarrow> string" where
  "data_key b = ''data.'' @ Labels b ! 0 @ ''.'' @ Labels b ! 1"

text \<open>
  The assignments \<open>items[k] = v\<close> that the loop body of \<open>processUsage\<close> makes for a
  block of Terraform, in their order: the map, the key and the count.
\<close>

definition written :: "ModuleUsage \<Rightarrow> string \<Rightarrow> Block \<Rightarrow> (nat \<times> string \<times> int) list" where
  "written m text b =
     (if Type b = ''data''
      then [(DataBlocks m, data_key b,
             int (count_from (key_matches (data_key b)) (length (data_key b)) 0 text))]
      else []) @
     (if Type b = ''module''
      then [(Modules m, Labels b ! 0, int (occurrences (''module.'' @ Labels b ! 0) text))]
      else []) @
     (if Type b = ''variable''
      then [(Variables m, Labels b ! 0,
             int (occurrences_then_nonword (''var.'' @ Labels b ! 0) text))]
      else if Type b = ''locals''
      then map (\<lambda>a. (Locals m, a, int (occurrences_then_nonword (''local.'' @ a) text)))
               (map fst (Attributes b))
      else [])"

text \<open>One such assignment, made on the heap.\<close>

definition assign :: "nat \<times> string \<times> int \<Rightarrow> heap \<Rightarrow> heap" where
  "assign w h = (case w of (items, k, v) \<Rightarrow> map_store items k v h)"

text \<open>
  What \<open>NewModuleUsage\<close> allocates on a heap \<open>h\<close>: four empty maps at the next four
  addresses, and the report that refers to them.
\<close>

definition allocated :: "heap \<Rightarrow> heap" where
  "allocated h =
     h\<lparr>next_addr := Suc (Suc (Suc (Suc (next_addr h)))),
       cells := (cells h)(next_addr h := [], Suc (next_addr h) := [],
                          Suc (Suc (next_addr h)) := [], Suc (Suc (Suc (next_addr h))) := [])\<rparr>"

definition new_report :: "string \<Rightarrow> heap \<Rightarrow> File \<Rightarrow> ModuleUsage" where
  "new_report path h f =
     \<lparr>Path = path, Variables = next_addr h, Locals = Suc (next_addr h),
      Modules = Suc (Suc (next_addr h)), DataBlocks = Suc (Suc (Suc (next_addr h))),
      parsed = Some f\<rparr>"

text \<open>The count that a run has left in the map at an address under a key.\<close>

definition stored :: "failure + heap \<Rightarrow> nat \<Rightarrow> string \<Rightarrow> int option" where
  "stored r items k = (case r of Inl e \<Rightarrow> None | Inr h \<Rightarrow> map_of (cells h items) k)"

section \<open>Fixtures\<close>

text \<open>
  The attribute whose value is the quoted string \<open>s\<close> without escapes or interpolation,
  as \<open>hclwrite\<close> tokenises it.
\<close>

definition quoted :: "string \<Rightarrow> Attribute" where
  "quoted s = \<lparr>Expr = [\<lparr>TokType = TokenOQuote, TokBytes = [CHR 0x22]\<rparr>,
                        \<lparr>TokType = TokenQuotedLit, TokBytes = s\<rparr>,
                        \<lparr>TokType = TokenCQuote, TokBytes = [CHR 0x22]\<rparr>]\<rparr>"

text \<open>An attribute whose expression has the given tokens, none of them part of a quoted string.\<close>

definition expression :: "string list \<Rightarrow> Attribute" where
  "expression ws = \<lparr>Expr = map (\<lambda>w. \<lparr>TokType = TokenOther, TokBytes = w\<rparr>) ws\<rparr>"

text \<open>An attribute whose value is the reference \<open>var.source\<close>.\<close>

definition reference_attribute :: Attribute where
  "reference_attribute = expression [''var'', ''.'', ''source'']"

text \<open>
  The report that \<open>NewModuleUsage\<close> builds on an empty heap for a parsed file, before
  \<open>processUsage\<close> runs: four new maps at the addresses 0 to 3.
\<close>

definition fresh_heap :: heap where
  "fresh_heap = \<lparr>next_addr = 4, cells = (\<lambda>a. [])\<rparr>"

definition report :: "File \<Rightarrow> ModuleUsage" where
  "report f = \<lparr>Path = ''mod'', Variables = 0, Locals = 1, Modules = 2, DataBlocks = 3,
               parsed = Some f\<rparr>"

text \<open>
  A module with the variables \<open>region\<close> and \<open>region_id\<close>, each referenced once; its
  text is formatted, so it is its own rendering.
\<close>

definition region_file :: File where
  \<open>region_file =
     \<lparr>Blocks =
        [\<lparr>Type = ''variable'', Labels = [''region''], Attributes = []\<rparr>,
         \<lparr>Type = ''variable'', Labels = [''region_id''], Attributes = []\<rparr>,
         \<lparr>Type = ''provider'', Labels = [''null''],
          Attributes = [(''region'', expression [''var'', ''.'', ''region'']),
                        (''id'', expression [''var'', ''.'', ''region_id''])]\<rparr>],
      Bytes = ''\<newline>variable "region" {}\<newline>variable "region_id" {}\<newline>provider "null" {\<newline>  region = var.region\<newline>  id     = var.region_id\<newline>}\<newline>''\<rparr>\<close>

text \<open>
  A module that calls the modules \<open>foo\<close> and \<open>foobar\<close> and refers to \<open>module.foobar\<close>
  once.
\<close>

definition foo_file :: File where
  \<open>foo_file =
     \<lparr>Blocks =
        [\<lparr>Type = ''module'', Labels = [''foo''], Attributes = [(''source'', quoted ''./foo'')]\<rparr>,
         \<lparr>Type = ''module'', Labels = [''foobar''],
          Attributes = [(''source'', quoted ''./foobar'')]\<rparr>,
         \<lparr>Type = ''output'', Labels = [''id''],
          Attributes = [(''value'', expression [''module'', ''.'', ''foobar'', ''.'', ''id''])]\<rparr>],
      Bytes = ''\<newline>module "foo" {\<newline>  source = "./foo"\<newline>}\<newline>module "foobar" {\<newline>  source = "./foobar"\<newline>}\<newline>output "id" {\<newline>  value = module.foobar.id\<newline>}\<newline>''\<rparr>\<close>

text \<open>
  A module whose only block is a \<open>locals\<close> block; the value of \<open>tags\<close> refers to
  \<open>local.other_tag\<close>, and nothing outside the block does. Its text is formatted, so it
  is its own rendering.
\<close>

definition locals_file :: File where
  \<open>locals_file =
     \<lparr>Blocks =
        [\<lparr>Type = ''locals'', Labels = [],
          Attributes = [(''other_tag'', quoted ''cleaner''),
                        (''tags'', expression [''local'', ''.'', ''other_tag''])]\<rparr>],
      Bytes = ''\<newline>locals {\<newline>  other_tag = "cleaner"\<newline>  tags      = local.other_tag\<newline>}\<newline>''\<rparr>\<close>

text \<open>
  A module that declares the variable \<open>x\<close> and whose text ends, without a final newline,
  with the reference \<open>var.x\<close>.
\<close>

definition end_file :: File where
  \<open>end_file =
     \<lparr>Blocks = [\<lparr>Type = ''variable'', Labels = [''x''], Attributes = []\<rparr>],
      Bytes = ''\<newline>variable "x" {}\<newline>y = var.x''\<rparr>\<close>

text \<open>
  A module that declares the module \<open>test\<close> twice and refers to it once, as the file
  \<open>main.tf\<close> of a directory \<open>mod\<close>, with a parser that knows this one file.
\<close>

definition test_source :: string where
  \<open>test_source = ''module "test" {\<newline>  source = "./1"\<newline>}\<newline>module "test" {\<newline>  source = "./1"\<newline>}\<newline>output "test" {\<newline>  value = module.test.outputs.test\<newline>}\<newline>''\<close>

definition test_fs :: filesystem where
  "test_fs = [(''mod'', [(''main.tf'', RegularFile test_source)])]"

definition test_file :: File where
  "test_file =
     \<lparr>Blocks =
        [\<lparr>Type = ''module'', Labels = [''test''], Attributes = [(''source'', quoted ''./1'')]\<rparr>,
         \<lparr>Type = ''module'', Labels = [''test''], Attributes = [(''source'', quoted ''./1'')]\<rparr>,
         \<lparr>Type = ''output'', Labels = [''test''],
          Attributes = [(''value'',
            expression [''module'', ''.'', ''test'', ''.'', ''outputs'', ''.'', ''test''])]\<rparr>],
      Bytes = newline # test_source\<rparr>"

definition test_parser :: "string \<Rightarrow> string + File" where
  "test_parser src = (if src = newline # test_source then Inr test_file else Inl ''unknown'')"

text \<open>
  A module with the data block \<open>aws_ami\<close> \<open>x\<close> and an output named \<open>data_aws_ami_x\<close>;
  the text \<open>data.aws_ami.x\<close> occurs nowhere in it.
\<close>

definition data_file :: File where
  \<open>data_file =
     \<lparr>Blocks =
        [\<lparr>Type = ''data'', Labels = [''aws_ami'', ''x''], Attributes = []\<rparr>,
         \<lparr>Type = ''output'', Labels = [''data_aws_ami_x''],
          Attributes = [(''value'', expression [''1''])]\<rparr>],
      Bytes = ''\<newline>data "aws_ami" "x" {}\<newline>output "data_aws_ami_x" {\<newline>  value = 1\<newline>}\<newline>''\<rparr>\<close>

text \<open>
  A report whose maps are on the heap: the locals \<open>dummy\<close>, never referenced, and \<open>tags\<close>,
  referenced once, and the variables \<open>region\<close>, referenced twice, and \<open>zone\<close>, never.
\<close>

definition reported_heap :: heap where
  "reported_heap =
     \<lparr>next_addr = 4,
      cells = (\<lambda>a. if a = 0 then [(''region'', 2), (''zone'', 0)]
                    else if a = 1 then [(''dummy'', 0), (''tags'', 1)]
                    else [])\<rparr>"

text \<open>
  A directory with two configuration files, a file of another kind and a sub-directory;
  and a directory without configuration files.
\<close>

definition two_files_fs :: filesystem where
  "two_files_fs =
     [(''mod'', [(''b.tf'', RegularFile ''B''), (''notes.txt'', RegularFile ''N''),
                 (''a.tf'', RegularFile ''A''), (''sub'', Unreadable)]),
      (''empty'', [(''notes.txt'', RegularFile ''N'')])]"

text \<open>The heap before anything is allocated.\<close>

definition empty_heap :: heap where
  "empty_heap = \<lparr>next_addr = 0, cells = (\<lambda>a. [])\<rparr>"

text \<open>
  The count under a key in one of the maps of the report that \<open>NewModuleUsage\<close> has
  returned without an error.
\<close>

definition reported ::
  "failure + heap \<times> ModuleUsage option \<times> go_error option \<Rightarrow> (ModuleUsage \<Rightarrow> nat) \<Rightarrow> string \<Rightarrow>
   int option" where
  "reported r items k =
     (case r of Inr (h, Some m, None) \<Rightarrow> map_of (cells h (items m)) k | _ \<Rightarrow> None)"

text \<open>
  A module, the file \<open>main.tf\<close> of a directory \<open>mod\<close>, that declares the variable \<open>x\<close> and
  refers to it with spaces around the dot, \<open>var . x\<close>. The parser knows this one file; the
  rendered text of the parsed file has \<open>var.x\<close>.
\<close>

definition spaced_var_source :: string where
  \<open>spaced_var_source = ''variable "x" {}\<newline>y = var . x\<newline>''\<close>

definition spaced_var_fs :: filesystem where
  "spaced_var_fs = [(''mod'', [(''main.tf'', RegularFile spaced_var_source)])]"

definition spaced_var_file :: File where
  \<open>spaced_var_file =
     \<lparr>Blocks = [\<lparr>Type = ''variable'', Labels = [''x''], Attributes = []\<rparr>],
      Bytes = ''\<newline>variable "x" {}\<newline>y = var.x\<newline>''\<rparr>\<close>

definition spaced_var_parser :: "string \<Rightarrow> string + File" where
  "spaced_var_parser src =
     (if src = newline # spaced_var_source then Inr spaced_var_file else Inl ''unknown'')"

text \<open>
  A module that calls the module \<open>foo\<close> and refers to it with spaces around the dots,
  \<open>module . foo . id\<close>; the rendered text of the parsed file has \<open>module.foo.id\<close>.
\<close>

definition spaced_module_source :: string where
  \<open>spaced_module_source = ''module "foo" {\<newline>  source = "./foo"\<newline>}\<newline>output "id" {\<newline>  value = module . foo . id\<newline>}\<newline>''\<close>

definition spaced_module_fs :: filesystem where
  "spaced_module_fs = [(''mod'', [(''main.tf'', RegularFile spaced_module_source)])]"

definition spaced_module_file :: File where
  \<open>spaced_module_file =
     \<lparr>Blocks =
        [\<lparr>Type = ''module'', Labels = [''foo''], Attributes = [(''source'', quoted ''./foo'')]\<rparr>,
         \<lparr>Type = ''output'', Labels = [''id''],
          Attributes = [(''value'', expression [''module'', ''.'', ''foo'', ''.'', ''id''])]\<rparr>],
      Bytes = ''\<newline>module "foo" {\<newline>  source = "./foo"\<newline>}\<newline>output "id" {\<newline>  value = module.foo.id\<newline>}\<newline>''\<rparr>\<close>

definition spaced_module_parser :: "string \<Rightarrow> string + File" where
  "spaced_module_parser src =
     (if src = newline # spaced_module_source then Inr spaced_module_file else Inl ''unknown'')"

text \<open>
  A module whose \<open>locals\<close> block refers to \<open>other_tag\<close> with spaces around the dot,
  \<open>local . other_tag\<close>; the rendered text of the parsed file has \<open>local.other_tag\<close>.
\<close>

definition spaced_local_source :: string where
  \<open>spaced_local_source = ''locals {\<newline>  other_tag = "cleaner"\<newline>  tags      = local . other_tag\<newline>}\<newline>''\<close>

definition spaced_local_fs :: filesystem where
  "spaced_local_fs = [(''mod'', [(''main.tf'', RegularFile spaced_local_source)])]"

definition spaced_local_file :: File where
  \<open>spaced_local_file =
     \<lparr>Blocks =
        [\<lparr>Type = ''locals'', Labels = [],
          Attributes = [(''other_tag'', quoted ''cleaner''),
                        (''tags'', expression [''local'', ''.'', ''other_tag''])]\<rparr>],
      Bytes = ''\<newline>locals {\<newline>  other_tag = "cleaner"\<newline>  tags      = local.other_tag\<newline>}\<newline>''\<rparr>\<close>

definition spaced_local_parser :: "string \<Rightarrow> string + File" where
  "spaced_local_parser src =
     (if src = newline # spaced_local_source then Inr spaced_local_file else Inl ''unknown'')"

section \<open>Facts about the regular expressions\<close>

declare FindAllStringIndex_from.simps [simp del] leftmost.simps [simp del]

lemma matches_literal:
  "matches (foldr (\<lambda>c. Cat (Lit c)) lit r) (s, c) =
     (if prefix lit s then matches r (drop (length lit) s, c) else [])"
proof (induction lit arbitrary: s)
  case Nil
  then show ?case by simp
next
  case (Cons a lit)
  then show ?case by (cases s) auto
qed

lemma compile_plain_name:
  "plain_name name \<Longrightarrow>
   compile (name @ rest) = map_option (\<lambda>r. foldr (\<lambda>c. Cat (Lit c)) name r) (compile rest)"
proof (induction name)
  case Nil
  then show ?case by (simp add: option.map_ident)
next
  case (Cons a name)
  then have "a \<noteq> bslash" "a \<noteq> CHR ''.''" "a \<notin> set regexp_meta" "plain_name name"
    by (auto simp: plain_name_def regexp_meta_def)
  with Cons.IH show ?case by (simp add: option.map_comp comp_def)
qed

lemma Sprintf_var:
  "Sprintf (''var'' @ [bslash] @ ''.%s'' @ [bslash] @ ''W'') [name] =
   ''var'' @ [bslash, CHR ''.''] @ name @ [bslash, CHR ''W'']"
  by simp

lemma Sprintf_local:
  "Sprintf (''local'' @ [bslash] @ ''.%s'' @ [bslash] @ ''W'') [name] =
   ''local'' @ [bslash, CHR ''.''] @ name @ [bslash, CHR ''W'']"
  by simp

lemma Sprintf_module:
  "Sprintf (''module'' @ [bslash] @ ''.%s'') [name] = ''module'' @ [bslash, CHR ''.''] @ name"
  by simp

lemma Sprintf_data:
  "Sprintf ''data.%s.%s'' [data_type, name] = ''data.'' @ data_type @ ''.'' @ name"
  by simp

lemma Sprintf_invalid:
  "Sprintf ''%s is an invalid display Type'' [dType] = dType @ '' is an invalid display Type''"
  by simp

lemma compile_var:
  assumes "plain_name name"
  shows "compile (''var'' @ [bslash, CHR ''.''] @ name @ [bslash, CHR ''W'']) =
         Some (foldr (\<lambda>c. Cat (Lit c)) (''var.'' @ name) (Cat NotWord EmptyMatch))"
  using compile_plain_name[OF assms, of "[bslash, CHR ''W'']"]
  by (simp add: regexp_meta_def)

lemma compile_local:
  assumes "plain_name name"
  shows "compile (''local'' @ [bslash, CHR ''.''] @ name @ [bslash, CHR ''W'']) =
         Some (foldr (\<lambda>c. Cat (Lit c)) (''local.'' @ name) (Cat NotWord EmptyMatch))"
  using compile_plain_name[OF assms, of "[bslash, CHR ''W'']"]
  by (simp add: regexp_meta_def)

lemma compile_module:
  assumes "plain_name name"
  shows "compile (''module'' @ [bslash, CHR ''.''] @ name) =
         Some (foldr (\<lambda>c. Cat (Lit c)) (''module.'' @ name) EmptyMatch)"
  using compile_plain_name[OF assms, of "[]"]
  by (simp add: regexp_meta_def)

lemma compile_key:
  "list_all (\<lambda>c. c = CHR ''.'' \<or> c \<notin> set regexp_meta) key \<Longrightarrow> compile key = Some (key_regex key)"
  by (induction key) (auto simp: key_regex_def regexp_meta_def)

lemma matches_key:
  "matches (key_regex key) (s, c) = (if key_matches key s then [(drop (length key) s, c)] else [])"
proof (induction key arbitrary: s)
  case Nil
  then show ?case by (simp add: key_regex_def)
next
  case (Cons k key)
  then show ?case by (cases s) (auto simp: key_regex_def)
qed

lemma key_matches_length: "key_matches key s \<Longrightarrow> length key \<le> length s"
  by (induction key s rule: key_matches.induct) (auto split: if_splits)

lemma matches_then_nonword:
  "matches (foldr (\<lambda>c. Cat (Lit c)) lit (Cat NotWord EmptyMatch)) (s, c) =
     (if then_nonword lit s then [(drop (Suc (length lit)) s, c)] else [])"
proof -
  have "drop (Suc (length lit)) s = tl (drop (length lit) s)"
    by (simp add: drop_Suc tl_drop)
  then show ?thesis
    by (auto simp: matches_literal then_nonword_def split: list.splits)
qed

lemma then_nonword_length: "then_nonword lit s \<Longrightarrow> Suc (length lit) \<le> length s"
  by (auto simp: then_nonword_def prefix_def split: list.splits)

section \<open>Facts about \<open>FindAllStringIndex\<close> and \<open>countPattern\<close>\<close>

lemma FindAll_past:
  "length s < pos \<Longrightarrow> FindAllStringIndex_from re s pos prev = []"
  by (subst FindAllStringIndex_from.simps) simp

lemma FindAll_no_match:
  "pos \<le> length s \<Longrightarrow> matches re (drop pos s, Map.empty) = [] \<Longrightarrow>
   FindAllStringIndex_from re s pos prev = FindAllStringIndex_from re s (Suc pos) prev"
  by (subst FindAllStringIndex_from.simps) simp

lemma FindAll_match:
  "pos \<le> length s \<Longrightarrow> matches re (drop pos s, Map.empty) = (rest, c) # ms \<Longrightarrow>
   pos < length s - length rest \<Longrightarrow>
   FindAllStringIndex_from re s pos prev =
     (pos, length s - length rest) #
     FindAllStringIndex_from re s (length s - length rest) (Some (length s - length rest))"
  by (subst FindAllStringIndex_from.simps) (simp add: Let_def)

lemma FindAll_match_unfold:
  "pos \<le> length s \<Longrightarrow> matches re (drop pos s, Map.empty) = (rest, c) # ms \<Longrightarrow>
   FindAllStringIndex_from re s pos prev =
     (if length s - length rest \<le> pos \<and> prev = Some pos then []
      else [(pos, length s - length rest)]) @
     FindAllStringIndex_from re s
       (if length s - length rest \<le> pos then Suc pos else length s - length rest)
       (Some (length s - length rest))"
  by (subst FindAllStringIndex_from.simps) (simp add: Let_def)

lemma count_from_drop:
  "k \<le> length s \<Longrightarrow> count_from P w k s = count_from P w 0 (drop k s)"
proof (induction s arbitrary: k)
  case Nil
  then show ?case by simp
next
  case (Cons a s)
  then show ?case by (cases k) auto
qed

lemma FindAll_fixed_width:
  "\<forall>t. matches re (t, Map.empty) = (if P t then [(drop w t, Map.empty)] else []) \<Longrightarrow>
   0 < w \<Longrightarrow> \<forall>t. P t \<longrightarrow> w \<le> length t \<Longrightarrow> pos \<le> length s \<Longrightarrow>
   length (FindAllStringIndex_from re s pos prev) = count_from P w 0 (drop pos s)"
proof (induction re s pos prev rule: FindAllStringIndex_from.induct)
  case (1 re s pos prev)
  note IH = "1.IH" and re = "1.prems"(1) and w = "1.prems"(2) and P = "1.prems"(3)
    and pos = "1.prems"(4)
  show ?case
  proof (cases "P (drop pos s)")
    case False
    then have m: "matches re (drop pos s, Map.empty) = []"
      by (simp add: re)
    show ?thesis
    proof (cases "pos = length s")
      case True
      then show ?thesis
        using m by (simp add: FindAll_no_match FindAll_past)
    next
      case False
      with pos have lt: "pos < length s" by simp
      then have d: "drop pos s = s ! pos # drop (Suc pos) s"
        by (simp add: Cons_nth_drop_Suc)
      have "length (FindAllStringIndex_from re s (Suc pos) prev) = count_from P w 0 (drop (Suc pos) s)"
        using IH(1)[OF _ m re w P] lt by simp
      moreover have "count_from P w 0 (drop pos s) = count_from P w 0 (drop (Suc pos) s)"
        using \<open>\<not> P (drop pos s)\<close> by (simp add: d)
      ultimately show ?thesis
        using m lt by (simp add: FindAll_no_match)
    qed
  next
    case True
    then have m: "matches re (drop pos s, Map.empty) = [(drop w (drop pos s), Map.empty)]"
      by (simp add: re)
    from True P have wl: "w \<le> length s - pos" by fastforce
    with w have lt: "pos < length s" by simp
    then have d: "drop pos s = s ! pos # drop (Suc pos) s"
      by (simp add: Cons_nth_drop_Suc)
    define e where "e = length s - length (drop w (drop pos s))"
    from wl lt have e: "e = pos + w" by (simp add: e_def)
    have "length (FindAllStringIndex_from re s (if e \<le> pos then Suc pos else e) (Some e)) =
          count_from P w 0 (drop (if e \<le> pos then Suc pos else e) s)"
      using IH(2)[OF _ m refl e_def re w P] lt wl w e by simp
    then have rec: "length (FindAllStringIndex_from re s (pos + w) (Some (pos + w))) =
          count_from P w 0 (drop (pos + w) s)"
      using e w by simp
    have "count_from P w 0 (drop pos s) = Suc (count_from P w (w - 1) (drop (Suc pos) s))"
      using True by (simp add: d)
    also have "count_from P w (w - 1) (drop (Suc pos) s) = count_from P w 0 (drop (w - 1) (drop (Suc pos) s))"
      using wl by (intro count_from_drop) simp
    also have "drop (w - 1) (drop (Suc pos) s) = drop (pos + w) s"
      using w by (simp add: add.commute)
    finally have c: "count_from P w 0 (drop pos s) = Suc (count_from P w 0 (drop (pos + w) s))" .
    have "FindAllStringIndex_from re s pos prev =
          (pos, pos + w) # FindAllStringIndex_from re s (pos + w) (Some (pos + w))"
      using FindAll_match[OF _ m, of prev] lt w e by (simp add: e_def)
    with rec c show ?thesis by simp
  qed
qed

lemma FindAll_reported:
  "(b, e) \<in> set (FindAllStringIndex_from re s pos prev) \<Longrightarrow>
   matches re (drop b s, Map.empty) \<noteq> []"
proof (induction re s pos prev rule: FindAllStringIndex_from.induct)
  case (1 re s pos prev)
  show ?case
  proof (cases "length s < pos")
    case True
    with 1(3) show ?thesis by (simp add: FindAll_past)
  next
    case False
    show ?thesis
    proof (cases "matches re (drop pos s, Map.empty)")
      case Nil
      with False 1(3) have "(b, e) \<in> set (FindAllStringIndex_from re s (Suc pos) prev)"
        by (simp add: FindAll_no_match)
      from 1(1)[OF False Nil this] show ?thesis .
    next
      case (Cons x xs)
      obtain rest c where x: "x = (rest, c)" by (cases x)
      from False have le: "pos \<le> length s" by simp
      from 1(3) consider "b = pos" |
        "(b, e) \<in> set (FindAllStringIndex_from re s
           (if length s - length rest \<le> pos then Suc pos else length s - length rest)
           (Some (length s - length rest)))"
        unfolding FindAll_match_unfold[OF le Cons[unfolded x]]
        by (auto split: if_splits)
      then show ?thesis
      proof cases
        case 1
        with Cons show ?thesis by simp
      next
        case 2
        from "1.IH"(2)[OF False Cons x[symmetric] refl 2] show ?thesis .
      qed
    qed
  qed
qed

lemma countPattern_then_nonword:
  assumes "compile pattern = Some (foldr (\<lambda>c. Cat (Lit c)) lit (Cat NotWord EmptyMatch))"
  shows "countPattern content pattern = Inr (int (occurrences_then_nonword lit content))"
  using FindAll_fixed_width[of _ "then_nonword lit" "Suc (length lit)" 0 content None]
  by (simp add: countPattern_def assms FindAllStringIndex_def occurrences_then_nonword_def
      matches_then_nonword then_nonword_length)

lemma countPattern_literal:
  assumes "compile pattern = Some (foldr (\<lambda>c. Cat (Lit c)) lit EmptyMatch)" and "lit \<noteq> []"
  shows "countPattern content pattern = Inr (int (occurrences lit content))"
  using FindAll_fixed_width[of _ "prefix lit" "length lit" 0 content None] assms(2)
  by (simp add: countPattern_def assms FindAllStringIndex_def occurrences_def
      matches_literal prefix_length_le)

lemma countPattern_key:
  assumes "list_all (\<lambda>c. c = CHR ''.'' \<or> c \<notin> set regexp_meta) key" and "key \<noteq> []"
  shows "countPattern content key = Inr (int (count_from (key_matches key) (length key) 0 content))"
  using FindAll_fixed_width[of _ "key_matches key" "length key" 0 content None] assms(2)
  by (simp add: countPattern_def compile_key[OF assms(1)] FindAllStringIndex_def
      matches_key key_matches_length)

lemma countPattern_var:
  "plain_name name \<Longrightarrow>
   countPattern content (Sprintf (''var'' @ [bslash] @ ''.%s'' @ [bslash] @ ''W'') [name]) =
   Inr (int (occurrences_then_nonword (''var.'' @ name) content))"
  using countPattern_then_nonword[OF compile_var] by (simp only: Sprintf_var)

lemma countPattern_local:
  "plain_name name \<Longrightarrow>
   countPattern content (Sprintf (''local'' @ [bslash] @ ''.%s'' @ [bslash] @ ''W'') [name]) =
   Inr (int (occurrences_then_nonword (''local.'' @ name) content))"
  using countPattern_then_nonword[OF compile_local] by (simp only: Sprintf_local)

lemma countPattern_module:
  "plain_name name \<Longrightarrow>
   countPattern content (Sprintf (''module'' @ [bslash] @ ''.%s'') [name]) =
   Inr (int (occurrences (''module.'' @ name) content))"
  using countPattern_literal[OF compile_module] by (simp only: Sprintf_module) simp

lemma countPattern_data:
  "plain_name data_type \<Longrightarrow> plain_name name \<Longrightarrow>
   countPattern content (Sprintf ''data.%s.%s'' [data_type, name]) =
   Inr (int (count_from (key_matches (''data.'' @ data_type @ ''.'' @ name))
              (length (''data.'' @ data_type @ ''.'' @ name)) 0 content))"
  unfolding Sprintf_data
  by (rule countPattern_key) (auto simp: plain_name_def regexp_meta_def list_all_iff)

section \<open>Counting without overlap and counting all positions\<close>

lemma count_from_positive:
  "P (drop i s) \<Longrightarrow> i < length s \<Longrightarrow> k \<le> i \<Longrightarrow> 0 < count_from P w k s"
proof (induction s arbitrary: i k)
  case Nil
  then show ?case by simp
next
  case (Cons c s)
  show ?case
  proof (cases "k = 0 \<and> P (c # s)")
    case True
    then show ?thesis by simp
  next
    case False
    with Cons.prems have "i \<noteq> 0" by (cases i) auto
    then obtain j where i: "i = Suc j" by (cases i) auto
    from Cons.prems have "P (drop j s)" "j < length s" "k - 1 \<le> j"
      by (auto simp: i)
    from Cons.IH[OF this] False show ?thesis by auto
  qed
qed

lemma occurrence_counted:
  assumes "\<not> is_word c"
  shows "0 < occurrences_then_nonword lit (pre @ lit @ c # post)"
proof -
  have "then_nonword lit (drop (length pre) (pre @ lit @ c # post))"
    using assms by (simp add: then_nonword_def)
  then show ?thesis
    unfolding occurrences_then_nonword_def
    by (rule count_from_positive) simp_all
qed

lemma count_where_drop:
  "\<forall>k<n. \<not> P (drop k t) \<Longrightarrow> n \<le> length t \<Longrightarrow> count_where P t = count_where P (drop n t)"
proof (induction t arbitrary: n)
  case Nil
  then show ?case by simp
next
  case (Cons c t)
  show ?case
  proof (cases n)
    case 0
    then show ?thesis by simp
  next
    case (Suc n')
    with Cons.prems have "\<not> P (c # t)" and "\<forall>k<n'. \<not> P (drop k t)" and "n' \<le> length t"
      by force+
    with Cons.IH[of n'] Suc show ?thesis by simp
  qed
qed

lemma none_within_drop:
  "none_within P n s \<Longrightarrow> k < n \<Longrightarrow> k < length s \<Longrightarrow> \<not> P (drop k s)"
proof (induction P n s arbitrary: k rule: none_within.induct)
  case (3 P n c s)
  then show ?case by (cases k) auto
qed simp_all

lemma apart_drop: "apart P w s \<Longrightarrow> apart P w (drop n s)"
proof (induction s arbitrary: n)
  case Nil
  then show ?case by simp
next
  case (Cons c s)
  then show ?case by (cases n) auto
qed

lemma count_from_apart:
  assumes w: "0 < w" and len: "\<And>t. P t \<Longrightarrow> w \<le> length t"
  shows "apart P w s \<Longrightarrow> count_from P w 0 s = count_where P s"
proof (induction s rule: length_induct)
  case (1 s)
  show ?case
  proof (cases s)
    case Nil
    then show ?thesis by simp
  next
    case (Cons c t)
    with "1.prems" have t: "apart P w t" by simp
    show ?thesis
    proof (cases "P s")
      case True
      from len[OF True] w have wl: "w - 1 \<le> length t"
        by (simp add: Cons)
      from True "1.prems" have none: "none_within P (w - 1) t"
        by (simp add: Cons)
      have "\<forall>k<w - 1. \<not> P (drop k t)"
        using none_within_drop[OF none] wl by auto
      from count_where_drop[OF this wl]
      have skip: "count_where P t = count_where P (drop (w - 1) t)" .
      have "apart P w (drop (w - 1) t)"
        using t by (rule apart_drop)
      moreover have "length (drop (w - 1) t) < length s"
        by (simp add: Cons)
      ultimately have ih: "count_from P w 0 (drop (w - 1) t) = count_where P (drop (w - 1) t)"
        using "1.IH" by blast
      have "count_from P w 0 s = Suc (count_from P w (w - 1) t)"
        using True by (simp add: Cons)
      also have "count_from P w (w - 1) t = count_from P w 0 (drop (w - 1) t)"
        using wl by (rule count_from_drop)
      finally show ?thesis
        using True ih skip by (simp add: Cons)
    next
      case False
      from t have "count_from P w 0 t = count_where P t"
        using "1.IH" by (simp add: Cons)
      with False show ?thesis by (simp add: Cons)
    qed
  qed
qed

lemma occurrences_apart:
  "lit \<noteq> [] \<Longrightarrow> apart (prefix lit) (length lit) s \<Longrightarrow>
   occurrences lit s = count_where (prefix lit) s"
  unfolding occurrences_def by (rule count_from_apart) (auto simp: prefix_length_le)

lemma occurrences_then_nonword_apart:
  "apart (then_nonword lit) (Suc (length lit)) s \<Longrightarrow>
   occurrences_then_nonword lit s = count_where (then_nonword lit) s"
  unfolding occurrences_then_nonword_def
  by (rule count_from_apart) (auto simp: then_nonword_length)

lemma region_apart:
  "apart (then_nonword (''var.'' @ ''region'')) (Suc (length (''var.'' @ ''region''))) (Bytes region_file)"
  by code_simp

lemma foo_apart:
  "apart (prefix (''module.'' @ ''foo'')) (length (''module.'' @ ''foo'')) (Bytes foo_file)"
  by code_simp

lemma other_tag_apart:
  "apart (then_nonword (''local.'' @ ''other_tag'')) (Suc (length (''local.'' @ ''other_tag'')))
     (Bytes locals_file)"
  by code_simp

lemma count_positions_where: "count_positions lit s = count_where (prefix lit) s"
  by (induction s) auto

lemma count_positions_skip:
  "\<forall>c \<in> set xs. c \<noteq> a \<Longrightarrow> count_positions (a # l) (xs @ r) = count_positions (a # l) r"
  by (induction xs) auto

lemma occurrences_positions:
  assumes "a \<notin> set l"
  shows "occurrences (a # l) s = count_positions (a # l) s"
proof (induction s rule: length_induct)
  case (1 s)
  show ?case
  proof (cases s)
    case Nil
    then show ?thesis by (simp add: occurrences_def)
  next
    case (Cons c t)
    show ?thesis
    proof (cases "prefix (a # l) s")
      case True
      then obtain r where s: "s = (a # l) @ r"
        by (auto simp: prefix_def)
      have "occurrences (a # l) s = Suc (count_from (prefix (a # l)) (Suc (length l)) (length l) (l @ r))"
        using True by (simp add: occurrences_def s)
      also have "count_from (prefix (a # l)) (Suc (length l)) (length l) (l @ r) =
                 count_from (prefix (a # l)) (Suc (length l)) 0 (drop (length l) (l @ r))"
        by (rule count_from_drop) simp
      also have "\<dots> = occurrences (a # l) r"
        by (simp add: occurrences_def)
      also have "\<dots> = count_positions (a # l) r"
        using 1 by (simp add: s)
      finally have "occurrences (a # l) s = Suc (count_positions (a # l) r)" .
      moreover have "count_positions (a # l) s = Suc (count_positions (a # l) (l @ r))"
        using True by (simp add: s)
      moreover have "count_positions (a # l) (l @ r) = count_positions (a # l) r"
        using assms by (intro count_positions_skip) auto
      ultimately show ?thesis by simp
    next
      case False
      have "occurrences (a # l) s = occurrences (a # l) t"
        using False by (auto simp: occurrences_def Cons)
      also have "\<dots> = count_positions (a # l) t"
        using 1 by (simp add: Cons)
      finally show ?thesis
        using False by (simp add: Cons)
    qed
  qed
qed

lemma count_positions_mono:
  "prefix l1 l2 \<Longrightarrow> count_positions l2 s \<le> count_positions l1 s"
proof (induction s)
  case Nil
  then show ?case by simp
next
  case (Cons c s)
  then have "prefix l2 (c # s) \<Longrightarrow> prefix l1 (c # s)"
    by (meson prefix_order.trans)
  with Cons show ?case by auto
qed

lemma foo_counts_foobar:
  "count_positions ''module.foobar'' s \<le> occurrences ''module.foo'' s"
proof -
  have "occurrences ''module.foo'' s = count_positions ''module.foo'' s"
    by (rule occurrences_positions) simp
  moreover have "count_positions ''module.foobar'' s \<le> count_positions ''module.foo'' s"
    by (rule count_positions_mono) simp
  ultimately show ?thesis by simp
qed

section \<open>Facts about \<open>processUsage\<close>\<close>

lemma bind_Inr [simp]: "bind (Inr v) f = f v"
  by (simp add: bind_def)

lemma bind_Inl [simp]: "bind (Inl e) f = Inl e"
  by (simp add: bind_def)

lemma processLocals_written:
  "list_all plain_name attribs \<Longrightarrow>
   processLocals m text attribs h =
     Inr (fold assign
            (map (\<lambda>a. (Locals m, a, int (occurrences_then_nonword (''local.'' @ a) text))) attribs) h)"
proof (induction attribs arbitrary: h)
  case Nil
  then show ?case by simp
next
  case (Cons a attribs)
  then have "plain_name a" "list_all plain_name attribs" by simp_all
  with Cons.IH show ?case
    by (simp only: processLocals.simps countPattern_local bind_Inr list.map fold_simps assign_def)
       simp
qed

lemma processBlock_written:
  assumes "terraform_block b"
  shows "processBlock m text b h = Inr (fold assign (written m text b) h)"
proof -
  consider (data) "Type b = ''data''" | (module) "Type b = ''module''"
    | (variable) "Type b = ''variable''" | (locals) "Type b = ''locals''"
    | (other) "Type b \<notin> {''data'', ''module'', ''variable'', ''locals''}"
    by auto
  then show ?thesis
  proof cases
    case data
    with assms have l: "2 \<le> length (Labels b)" "plain_name (Labels b ! 0)" "plain_name (Labels b ! 1)"
      by (simp_all add: terraform_block_def)
    have k: "Sprintf ''data.%s.%s'' [Labels b ! 0, Labels b ! 1] = data_key b"
      by (simp only: Sprintf_data data_key_def)
    have c: "countPattern text (data_key b) =
      Inr (int (count_from (key_matches (data_key b)) (length (data_key b)) 0 text))"
      using countPattern_data[OF l(2) l(3), of "text"] by (simp only: k data_key_def)
    from l(1) have "label b 0 = Inr (Labels b ! 0)" "label b 1 = Inr (Labels b ! 1)"
      by (auto simp: label_def)
    then show ?thesis
      using data k c
      by (simp add: processBlock_def written_def Let_def assign_def del: Sprintf.simps)
  next
    case module
    with assms have l: "1 \<le> length (Labels b)" "plain_name (Labels b ! 0)"
      by (simp_all add: terraform_block_def)
    from l(1) have "label b 0 = Inr (Labels b ! 0)"
      by (auto simp: label_def)
    then show ?thesis
      using module countPattern_module[OF l(2), of "text"]
      by (simp add: processBlock_def written_def Let_def assign_def del: Sprintf.simps)
  next
    case variable
    with assms have l: "1 \<le> length (Labels b)" "plain_name (Labels b ! 0)"
      by (simp_all add: terraform_block_def)
    from l(1) have "label b 0 = Inr (Labels b ! 0)"
      by (auto simp: label_def)
    then show ?thesis
      using variable countPattern_var[OF l(2), of "text"]
      by (simp add: processBlock_def written_def Let_def assign_def del: Sprintf.simps)
  next
    case locals
    with assms have "list_all plain_name (map fst (Attributes b))"
      by (simp add: terraform_block_def)
    then show ?thesis
      using locals by (simp add: processBlock_def written_def Let_def processLocals_written)
  next
    case other
    then show ?thesis
      by (simp add: processBlock_def written_def Let_def)
  qed
qed

lemma processBlocks_written:
  "list_all terraform_block blocks \<Longrightarrow>
   processBlocks m text blocks h = Inr (fold assign (concat (map (written m text) blocks)) h)"
  by (induction blocks arbitrary: h) (simp_all add: processBlock_written)

lemma processUsage_written:
  "parsed m = Some f \<Longrightarrow> list_all terraform_block (Blocks f) \<Longrightarrow>
   processUsage m h = Inr (fold assign (concat (map (written m (Bytes f)) (Blocks f))) h)"
  by (simp add: processUsage_def processBlocks_written)

lemma cells_assign:
  "cells (assign (a, k, v) h) a' = (if a' = a then AList.update k v (cells h a) else cells h a')"
  by (simp add: assign_def map_store_def)

lemma fold_assign_lookup:
  "\<forall>(a', k', v') \<in> set ws. a' = a \<and> k' = k \<longrightarrow> v' = v \<Longrightarrow>
   map_of (cells (fold assign ws h) a) k =
     (if \<exists>v'. (a, k, v') \<in> set ws then Some v else map_of (cells h a) k)"
proof (induction ws arbitrary: h)
  case Nil
  then show ?case by simp
next
  case (Cons w ws)
  obtain a' k' v' where w: "w = (a', k', v')" by (cases w)
  from Cons.prems have rest: "\<forall>(a', k', v') \<in> set ws. a' = a \<and> k' = k \<longrightarrow> v' = v"
    and hd: "a' = a \<and> k' = k \<longrightarrow> v' = v"
    by (auto simp: w)
  show ?case
    using Cons.IH[OF rest, of "assign w h"] hd
    by (auto simp: w cells_assign update_conv')
qed

lemma fold_assign_other:
  "a \<notin> fst ` set ws \<Longrightarrow> cells (fold assign ws h) a = cells h a"
  by (induction ws arbitrary: h) (auto simp: cells_assign)

lemma fold_assign_next: "next_addr (fold assign ws h) = next_addr h"
  by (induction ws arbitrary: h) (auto simp: assign_def map_store_def)

lemma fold_assign_distinct:
  "distinct (map fst (cells h a)) \<Longrightarrow> distinct (map fst (cells (fold assign ws h) a))"
proof (induction ws arbitrary: h)
  case Nil
  then show ?case by simp
next
  case (Cons w ws)
  obtain a' k' v' where w: "w = (a', k', v')" by (cases w)
  from Cons.prems have "distinct (map fst (cells (assign w h) a))"
    by (auto simp: w cells_assign distinct_update)
  from Cons.IH[OF this] show ?case by simp
qed

lemma stored_variable:
  assumes "Variables m \<notin> {Locals m, Modules m, DataBlocks m}"
    and "b \<in> set blocks" and "Type b = ''variable''"
  shows "map_of (cells (fold assign (concat (map (written m content) blocks)) h) (Variables m))
           (Labels b ! 0) =
         Some (int (occurrences_then_nonword (''var.'' @ Labels b ! 0) content))"
proof -
  let ?ws = "concat (map (written m content) blocks)"
  let ?v = "int (occurrences_then_nonword (''var.'' @ Labels b ! 0) content)"
  have same: "\<forall>(a', k', v') \<in> set ?ws. a' = Variables m \<and> k' = Labels b ! 0 \<longrightarrow> v' = ?v"
    using assms(1) by (auto simp: written_def split: if_splits)
  have "(Variables m, Labels b ! 0, ?v) \<in> set (written m content b)"
    using assms(3) by (simp add: written_def)
  with assms(2) have "\<exists>v'. (Variables m, Labels b ! 0, v') \<in> set ?ws"
    by auto
  with fold_assign_lookup[OF same, of h] show ?thesis by simp
qed

lemma stored_module:
  assumes "Modules m \<notin> {Variables m, Locals m, DataBlocks m}"
    and "b \<in> set blocks" and "Type b = ''module''"
  shows "map_of (cells (fold assign (concat (map (written m content) blocks)) h) (Modules m))
           (Labels b ! 0) =
         Some (int (occurrences (''module.'' @ Labels b ! 0) content))"
proof -
  let ?ws = "concat (map (written m content) blocks)"
  let ?v = "int (occurrences (''module.'' @ Labels b ! 0) content)"
  have same: "\<forall>(a', k', v') \<in> set ?ws. a' = Modules m \<and> k' = Labels b ! 0 \<longrightarrow> v' = ?v"
    using assms(1) by (auto simp: written_def split: if_splits)
  have "(Modules m, Labels b ! 0, ?v) \<in> set (written m content b)"
    using assms(3) by (simp add: written_def)
  with assms(2) have "\<exists>v'. (Modules m, Labels b ! 0, v') \<in> set ?ws"
    by auto
  with fold_assign_lookup[OF same, of h] show ?thesis by simp
qed

lemma stored_local:
  assumes "Locals m \<notin> {Variables m, Modules m, DataBlocks m}"
    and "b \<in> set blocks" and "Type b = ''locals''" and "a \<in> fst ` set (Attributes b)"
  shows "map_of (cells (fold assign (concat (map (written m content) blocks)) h) (Locals m)) a =
         Some (int (occurrences_then_nonword (''local.'' @ a) content))"
proof -
  let ?ws = "concat (map (written m content) blocks)"
  let ?v = "int (occurrences_then_nonword (''local.'' @ a) content)"
  have same: "\<forall>(a', k', v') \<in> set ?ws. a' = Locals m \<and> k' = a \<longrightarrow> v' = ?v"
    using assms(1) by (auto simp: written_def split: if_splits)
  have "(Locals m, a, ?v) \<in> set (written m content b)"
    using assms(3,4) by (auto simp: written_def)
  with assms(2) have "\<exists>v'. (Locals m, a, v') \<in> set ?ws"
    by auto
  with fold_assign_lookup[OF same, of h] show ?thesis by simp
qed

lemma NewModuleUsage_result:
  assumes "LoadTfModule fs path = (src, None)" and "ParseConfig src = Inr f"
    and "list_all terraform_block (Blocks f)"
  shows "NewModuleUsage ParseConfig fs path h =
     Inr (fold assign (concat (map (written (new_report path h f) (Bytes f)) (Blocks f)))
            (allocated h),
          Some (new_report path h f), None)"
proof -
  have p: "parsed (new_report path h f) = Some f"
    by (simp add: new_report_def)
  show ?thesis
    using assms(1,2) processUsage_written[OF p assms(3), of "allocated h"]
    by (simp add: NewModuleUsage_def make_map_def Let_def new_report_def allocated_def)
qed

lemma filter_key:
  "distinct (map fst al) \<Longrightarrow> map_of al k = Some v \<Longrightarrow> filter (\<lambda>e. fst e = k) al = [(k, v)]"
proof (induction al)
  case Nil
  then show ?case by simp
next
  case (Cons e al)
  show ?case
  proof (cases "fst e = k")
    case True
    with Cons.prems have "k \<notin> fst ` set al" "e = (k, v)"
      by (auto simp: rev_image_eqI)
    then have "filter (\<lambda>e. fst e = k) al = []"
      by (auto simp: filter_empty_conv)
    with True \<open>e = (k, v)\<close> show ?thesis by simp
  next
    case False
    with Cons show ?thesis by auto
  qed
qed

section \<open>The maps that \<open>processUsage\<close> fills are maps of reference counts\<close>

lemma update_nonneg:
  "\<forall>(k, v) \<in> set al. 0 \<le> v \<Longrightarrow> (0::int) \<le> v0 \<Longrightarrow>
   \<forall>(k, v) \<in> set (AList.update k0 v0 al). 0 \<le> v"
  by (induction al) auto

lemma count_map_update:
  "count_map al \<Longrightarrow> 0 \<le> v \<Longrightarrow> count_map (AList.update k v al)"
  using update_nonneg[of al v k] by (simp add: count_map_def distinct_update)

lemma fold_assign_count_map:
  "\<forall>(a', k, v) \<in> set ws. 0 \<le> v \<Longrightarrow> count_map (cells h a) \<Longrightarrow>
   count_map (cells (fold assign ws h) a)"
proof (induction ws arbitrary: h)
  case Nil
  then show ?case by simp
next
  case (Cons w ws)
  obtain a' k v where w: "w = (a', k, v)" by (cases w)
  with Cons.prems have "0 \<le> v" and rest: "\<forall>(a', k, v) \<in> set ws. 0 \<le> v"
    by auto
  with Cons.prems(2) have "count_map (cells (assign w h) a)"
    by (auto simp: w cells_assign count_map_update)
  from Cons.IH[OF rest this] show ?case by simp
qed

lemma written_nonneg: "\<forall>(a, k, v) \<in> set (written m content b). 0 \<le> v"
  by (auto simp: written_def)

lemma processUsage_count_map:
  assumes "parsed m = Some f" and "list_all terraform_block (Blocks f)"
    and "count_map (cells h a)"
  shows "\<exists>h'. processUsage m h = Inr h' \<and> count_map (cells h' a)"
proof -
  have "\<forall>(a', k, v) \<in> set (concat (map (written m (Bytes f)) (Blocks f))). 0 \<le> v"
    using written_nonneg by fastforce
  from fold_assign_count_map[OF this assms(3)] processUsage_written[OF assms(1,2), of h]
  show ?thesis by simp
qed

section \<open>Facts about the filter and \<open>Display\<close>\<close>

lemma filterUnusedOnly_loop_filter:
  "distinct (map fst items) \<Longrightarrow>
   filterUnusedOnly_loop names items = filter (\<lambda>(k, v). \<not> (k \<in> set names \<and> 0 < v)) items"
proof (induction names arbitrary: items)
  case Nil
  then show ?case by simp
next
  case (Cons name names)
  show ?case
  proof (cases "map_of items name")
    case None
    then have "\<forall>(k, v) \<in> set items. k \<noteq> name"
      by (auto simp: map_of_eq_None_iff rev_image_eqI)
    then have "filter (\<lambda>(k, v). \<not> (k \<in> set (name # names) \<and> 0 < v)) items =
               filter (\<lambda>(k, v). \<not> (k \<in> set names \<and> 0 < v)) items"
      by (intro filter_cong) auto
    with None Cons.IH[OF Cons.prems] show ?thesis by simp
  next
    case (Some count)
    have only: "\<forall>(k, v) \<in> set items. k = name \<longrightarrow> v = count"
    proof clarify
      fix v
      assume "(name, v) \<in> set items"
      with Cons.prems have "map_of items name = Some v"
        by (rule map_of_is_SomeI)
      with Some show "v = count" by simp
    qed
    show ?thesis
    proof (cases "0 < count")
      case True
      have d: "distinct (map fst (AList.delete name items))"
        using Cons.prems by (rule distinct_delete)
      have "filterUnusedOnly_loop (name # names) items =
            filter (\<lambda>(k, v). \<not> (k \<in> set names \<and> 0 < v)) (AList.delete name items)"
        using Some True Cons.IH[OF d] by simp
      also have "\<dots> = filter (\<lambda>(k, v). \<not> (k \<in> set (name # names) \<and> 0 < v)) items"
        using only True unfolding AList.delete_eq filter_filter
        by (intro filter_cong) auto
      finally show ?thesis .
    next
      case False
      have "filterUnusedOnly_loop (name # names) items =
            filter (\<lambda>(k, v). \<not> (k \<in> set names \<and> 0 < v)) items"
        using Some False Cons.IH[OF Cons.prems] by simp
      also have "\<dots> = filter (\<lambda>(k, v). \<not> (k \<in> set (name # names) \<and> 0 < v)) items"
        using only False by (intro filter_cong) auto
      finally show ?thesis .
    qed
  qed
qed

lemma filterUnusedOnly_loop_zero:
  assumes "count_map items"
  shows "filterUnusedOnly_loop (map fst items) items = filter (\<lambda>(k, v). v = 0) items"
proof -
  from assms have d: "distinct (map fst items)" and n: "\<forall>(k, v) \<in> set items. 0 \<le> v"
    by (simp_all add: count_map_def)
  have "filter (\<lambda>(k, v). \<not> (k \<in> set (map fst items) \<and> 0 < v)) items =
        filter (\<lambda>(k, v). v = 0) items"
    using n by (intro filter_cong) (auto simp: rev_image_eqI)
  with filterUnusedOnly_loop_filter[OF d, of "map fst items"] show ?thesis by simp
qed

lemma filterUnusedOnly_in_place:
  assumes "count_map (cells h a)"
  shows "\<exists>h'. filterUnusedOnly a h = (a, h') \<and>
           cells h' a = filter (\<lambda>(k, v). v = 0) (cells h a) \<and>
           (\<forall>b. b \<noteq> a \<longrightarrow> cells h' b = cells h b) \<and> next_addr h' = next_addr h"
  using filterUnusedOnly_loop_zero[OF assms] by (simp add: filterUnusedOnly_def)

lemma make_map_old:
  "make_map h = (a, h') \<Longrightarrow> b < next_addr h \<Longrightarrow> cells h' b = cells h b"
  by (auto simp: make_map_def)

lemma Display_Locals_unused:
  assumes "Locals m < next_addr h" and "count_map (cells h (Locals m))"
  shows "\<exists>h1 out1. Display m DisplayType_Locals True h = (h1, out1, None) \<and>
           cells h1 (Locals m) = filter (\<lambda>(k, v). v = 0) (cells h (Locals m)) \<and>
           next_addr h1 = Suc (Suc (Suc (next_addr h)))"
  using assms filterUnusedOnly_loop_zero[OF assms(2)]
  by (simp add: Display_def make_map_def filterUnusedOnly_def Let_def)

lemma Display_Locals_all:
  assumes "Locals m < next_addr h"
  shows "\<exists>h2. Display m DisplayType_Locals False h =
           (h2, ModuleHeading (Path m) # LocalsFound (len (Locals m) h) # entries (Locals m) h,
            None) \<and>
           cells h2 (Locals m) = cells h (Locals m)"
  using assms
  by (simp add: Display_def make_map_def Let_def Display_print_def len_def entries_def
      DisplayType_Locals_def DisplayType_All_def DisplayType_Variables_def)

lemma Display_Variables_unused:
  assumes "Variables m < next_addr h" and "count_map (cells h (Variables m))"
  shows "\<exists>h1 out1. Display m DisplayType_Variables True h = (h1, out1, None) \<and>
           cells h1 (Variables m) = filter (\<lambda>(k, v). v = 0) (cells h (Variables m)) \<and>
           next_addr h1 = Suc (Suc (Suc (next_addr h)))"
  using assms filterUnusedOnly_loop_zero[OF assms(2)]
  by (simp add: Display_def make_map_def filterUnusedOnly_def Let_def
      DisplayType_Locals_def DisplayType_Variables_def)

lemma Display_Variables_all:
  assumes "Variables m < next_addr h"
  shows "\<exists>h2. Display m DisplayType_Variables False h =
           (h2, ModuleHeading (Path m) # VariablesFound (len (Variables m) h) # ModulesFound 0 #
                entries (Variables m) h,
            None) \<and>
           cells h2 (Variables m) = cells h (Variables m)"
  using assms
  by (simp add: Display_def make_map_def Let_def Display_print_def len_def entries_def
      DisplayType_Locals_def DisplayType_All_def DisplayType_Variables_def)

section \<open>Facts about the loader and about \<open>parseModuleSource\<close>\<close>

lemma LoadTfModule_loop_readable:
  assumes "map_of fs path = Some es"
  shows "\<forall>n \<in> set names. is_tf n \<longrightarrow> readable es n \<Longrightarrow>
    LoadTfModule_loop fs path names out =
      (out @ concat (map (\<lambda>n. newline # file_data es n) (filter is_tf names)), None)"
proof (induction names arbitrary: out)
  case Nil
  then show ?case by simp
next
  case (Cons name names)
  show ?case
  proof (cases "is_tf name")
    case True
    with Cons.prems have "readable es name" by simp
    then obtain d where d: "map_of es name = Some (RegularFile d)"
      by (auto simp: readable_def split: option.splits node.splits)
    then have "os_ReadFile fs path name = Inr d" "file_data es name = d"
      using assms by (simp_all add: os_ReadFile_def file_data_def)
    with True Cons show ?thesis
      by (simp add: is_tf_def)
  next
    case False
    with Cons show ?thesis
      by (simp add: is_tf_def)
  qed
qed

lemma parseModuleSource_versioned:
  "parseModuleSource (quoted ''git::https://example.com/mod.git?ref=v1.2.3'') =
     (''git::https://example.com/mod.git'', ''1.2.3'')"
  by code_simp

lemma parseModuleSource_local_path:
  "parseModuleSource (quoted ''./local/path'') = (''./local/path'', [])"
  by code_simp

lemma parseModuleSource_not_literal:
  "\<not> single_quoted_literal a \<Longrightarrow> parseModuleSource a = ([], [])"
  by (auto simp: single_quoted_literal_def parseModuleSource_def Let_def length_Suc_conv
      numeral_3_eq_3 split: list.splits)

section \<open>Data blocks\<close>

text \<open>
  Claim C1, evaluated on the program. \<open>processUsage\<close> compiles the key
  \<open>data.aws_ami.x\<close> as it is, so its dots match any character (\<open>countPattern_data\<close>
  above): the name \<open>data_aws_ami_x\<close> in the text of \<open>data_file\<close> is counted and the count
  stored under the key is 1, while the key occurs nowhere in the text as a literal.
\<close>

theorem data_key_dots_match_any_character:
  "stored (processUsage (report data_file) fresh_heap) 3 ''data.aws_ami.x'' = Some 1 \<and>
   occurrences ''data.aws_ami.x'' (Bytes data_file) = 0 \<and>
   count_positions ''data.aws_ami.x'' (Bytes data_file) = 0"
  by code_simp

section \<open>Variables\<close>

lemma stored_region: "stored (processUsage (report region_file) fresh_heap) 0 ''region'' = Some 1"
  by code_simp

lemma region_file_ok: "list_all terraform_block (Blocks region_file)"
  by code_simp

text \<open>
  Claim C2, as the program has it. Take a report whose variables map is none of its other
  maps, and a parsed module whose blocks are as Terraform has them. Then \<open>processUsage\<close>
  runs to its end, and for a variable block named \<open>name\<close> the count stored under \<open>name\<close>
  in the variables map is the number of occurrences, in the rendered text \<open>Bytes\<close> of the
  parsed file (the text that \<open>processUsage\<close> searches, not the module text as it was
  written), of the literal text \<open>var.name\<close> that a non-word character follows
  immediately (occurrences counted from left to right without overlap, as for every count
  of the Reference Counter; when no two of them overlap in the rendered text, that is the
  number of all the positions where one starts). In the module \<open>region_file\<close>, whose
  rendered text has \<open>var.region\<close> once before a newline and \<open>var.region_id\<close> once, the
  count of \<open>region\<close> is 1.
\<close>

theorem variable_count:
  assumes "parsed m = Some f" and "list_all terraform_block (Blocks f)"
    and "Variables m \<notin> {Locals m, Modules m, DataBlocks m}"
    and "b \<in> set (Blocks f)" and "Type b = ''variable''" and "Labels b ! 0 = name"
  shows "(\<exists>h'. processUsage m h = Inr h' \<and>
            map_of (cells h' (Variables m)) name =
              Some (int (occurrences_then_nonword (''var.'' @ name) (Bytes f))) \<and>
            (apart (then_nonword (''var.'' @ name)) (Suc (length (''var.'' @ name))) (Bytes f) \<longrightarrow>
               map_of (cells h' (Variables m)) name =
                 Some (int (count_where (then_nonword (''var.'' @ name)) (Bytes f))))) \<and>
         stored (processUsage (report region_file) fresh_heap) 0 ''region'' = Some 1"
  using processUsage_written[OF assms(1,2), of h] stored_variable[OF assms(3,4,5), of "Bytes f" h]
    assms(6) stored_region occurrences_then_nonword_apart[of "''var.'' @ name" "Bytes f"]
  by auto

theorem variable_count_witness:
  "parsed (report region_file) = Some region_file \<and>
   list_all terraform_block (Blocks region_file) \<and>
   Type (Blocks region_file ! 0) = ''variable'' \<and>
   Labels (Blocks region_file ! 0) ! 0 = ''region'' \<and>
   apart (then_nonword (''var.'' @ ''region'')) (Suc (length (''var.'' @ ''region'')))
     (Bytes region_file) \<and>
   (\<exists>h'. processUsage (report region_file) fresh_heap = Inr h' \<and>
      map_of (cells h' (Variables (report region_file))) ''region'' =
        Some (int (occurrences_then_nonword (''var.'' @ ''region'') (Bytes region_file))) \<and>
      map_of (cells h' (Variables (report region_file))) ''region'' =
        Some (int (count_where (then_nonword (''var.'' @ ''region'')) (Bytes region_file))))"
proof -
  have 1: "parsed (report region_file) = Some region_file"
    by (simp add: report_def)
  have 3: "Variables (report region_file) \<notin>
      {Locals (report region_file), Modules (report region_file), DataBlocks (report region_file)}"
    by (simp add: report_def)
  have 4: "Blocks region_file ! 0 \<in> set (Blocks region_file)"
    by (simp add: region_file_def)
  have 5: "Type (Blocks region_file ! 0) = ''variable''"
    by (simp add: region_file_def)
  have 6: "Labels (Blocks region_file ! 0) ! 0 = ''region''"
    by (simp add: region_file_def)
  from variable_count[OF 1 region_file_ok 3 4 5 6, of fresh_heap] 1 region_file_ok 5 6 region_apart
  show ?thesis by blast
qed

text \<open>
  Claim C2 as it is stated fails: the module text of \<open>spaced_var_fs\<close> refers to the
  variable \<open>x\<close> as \<open>var . x\<close> and has no occurrence of the literal text \<open>var.x\<close>, but
  the rendered text that \<open>processUsage\<close> searches has \<open>var.x\<close> before a newline, and
  the count of \<open>x\<close> in the report of \<open>NewModuleUsage\<close> is 1.
\<close>

theorem variable_count_module_text:
  "reported (NewModuleUsage spaced_var_parser spaced_var_fs ''mod'' empty_heap) Variables ''x'' =
     Some 1 \<and>
   occurrences_then_nonword ''var.x'' (fst (LoadTfModule spaced_var_fs ''mod'')) = 0 \<and>
   reported (NewModuleUsage spaced_var_parser spaced_var_fs ''mod'' empty_heap) Variables ''x'' \<noteq>
     Some (int (occurrences_then_nonword ''var.x'' (fst (LoadTfModule spaced_var_fs ''mod''))))"
  by code_simp

section \<open>The filter for unused symbols\<close>

text \<open>
  Claim C3. On a map of reference counts of a report, \<open>filterUnusedOnly\<close> returns the
  reference it was given and leaves, at that address of the heap, exactly the entries
  whose count is zero, in their order; no other map changes. So the report itself is
  narrowed: after \<open>Display\<close> with the filter for locals (or for variables), the map of the
  report holds the entries with count zero only, and a later \<open>Display\<close> of the same report
  without the filter prints those entries and no others.
\<close>

theorem unused_only_narrows_in_place:
  assumes "a \<in> {Variables m, Locals m, Modules m}" and "count_map (cells h a)"
  shows "(\<exists>h'. filterUnusedOnly a h = (a, h') \<and>
            cells h' a = filter (\<lambda>(k, v). v = 0) (cells h a) \<and>
            (\<forall>b. b \<noteq> a \<longrightarrow> cells h' b = cells h b)) \<and>
         (a = Locals m \<and> a < next_addr h \<longrightarrow>
            (\<exists>h1 out1 h2.
               Display m DisplayType_Locals True h = (h1, out1, None) \<and>
               cells h1 a = filter (\<lambda>(k, v). v = 0) (cells h a) \<and>
               Display m DisplayType_Locals False h1 =
                 (h2, ModuleHeading (Path m) # LocalsFound (len a h1) # entries a h1, None))) \<and>
         (a = Variables m \<and> a < next_addr h \<longrightarrow>
            (\<exists>h1 out1 h2.
               Display m DisplayType_Variables True h = (h1, out1, None) \<and>
               cells h1 a = filter (\<lambda>(k, v). v = 0) (cells h a) \<and>
               Display m DisplayType_Variables False h1 =
                 (h2, ModuleHeading (Path m) # VariablesFound (len a h1) # ModulesFound 0 #
                      entries a h1, None)))"
proof (intro conjI impI)
  show "\<exists>h'. filterUnusedOnly a h = (a, h') \<and>
      cells h' a = filter (\<lambda>(k, v). v = 0) (cells h a) \<and>
      (\<forall>b. b \<noteq> a \<longrightarrow> cells h' b = cells h b)"
    using filterUnusedOnly_in_place[OF assms(2)] by blast
next
  assume l: "a = Locals m \<and> a < next_addr h"
  with assms(2) have "Locals m < next_addr h" "count_map (cells h (Locals m))"
    by simp_all
  from Display_Locals_unused[OF this] obtain h1 out1 where
    1: "Display m DisplayType_Locals True h = (h1, out1, None)"
    and 2: "cells h1 (Locals m) = filter (\<lambda>(k, v). v = 0) (cells h (Locals m))"
    and 3: "next_addr h1 = Suc (Suc (Suc (next_addr h)))"
    by blast
  from l 3 have "Locals m < next_addr h1" by simp
  from Display_Locals_all[OF this] 1 2 l
  show "\<exists>h1 out1 h2.
      Display m DisplayType_Locals True h = (h1, out1, None) \<and>
      cells h1 a = filter (\<lambda>(k, v). v = 0) (cells h a) \<and>
      Display m DisplayType_Locals False h1 =
        (h2, ModuleHeading (Path m) # LocalsFound (len a h1) # entries a h1, None)"
    by blast
next
  assume v: "a = Variables m \<and> a < next_addr h"
  with assms(2) have "Variables m < next_addr h" "count_map (cells h (Variables m))"
    by simp_all
  from Display_Variables_unused[OF this] obtain h1 out1 where
    1: "Display m DisplayType_Variables True h = (h1, out1, None)"
    and 2: "cells h1 (Variables m) = filter (\<lambda>(k, v). v = 0) (cells h (Variables m))"
    and 3: "next_addr h1 = Suc (Suc (Suc (next_addr h)))"
    by blast
  from v 3 have "Variables m < next_addr h1" by simp
  from Display_Variables_all[OF this] 1 2 v
  show "\<exists>h1 out1 h2.
      Display m DisplayType_Variables True h = (h1, out1, None) \<and>
      cells h1 a = filter (\<lambda>(k, v). v = 0) (cells h a) \<and>
      Display m DisplayType_Variables False h1 =
        (h2, ModuleHeading (Path m) # VariablesFound (len a h1) # ModulesFound 0 #
             entries a h1, None)"
    by blast
qed

theorem unused_only_narrows_in_place_witness:
  "Locals (report region_file) \<in>
     {Variables (report region_file), Locals (report region_file), Modules (report region_file)} \<and>
   count_map (cells reported_heap (Locals (report region_file))) \<and>
   Locals (report region_file) < next_addr reported_heap \<and>
   (\<exists>h1 out1 h2.
      Display (report region_file) DisplayType_Locals True reported_heap = (h1, out1, None) \<and>
      cells h1 (Locals (report region_file)) = [(''dummy'', 0)] \<and>
      Display (report region_file) DisplayType_Locals False h1 =
        (h2, [ModuleHeading ''mod'', LocalsFound 1, Entry ''dummy'' 0], None))"
proof -
  have 1: "Locals (report region_file) \<in>
     {Variables (report region_file), Locals (report region_file), Modules (report region_file)}"
    by simp
  have 2: "count_map (cells reported_heap (Locals (report region_file)))"
    by (simp add: count_map_def reported_heap_def report_def)
  have 3: "Locals (report region_file) < next_addr reported_heap"
    by (simp add: reported_heap_def report_def)
  have 4: "filter (\<lambda>(k, v). v = 0) (cells reported_heap (Locals (report region_file))) =
      [(''dummy'', 0)]"
    by (simp add: reported_heap_def report_def)
  from unused_only_narrows_in_place[OF 1 2] 3
  obtain h1 out1 h2 where
    a: "Display (report region_file) DisplayType_Locals True reported_heap = (h1, out1, None)"
    and b: "cells h1 (Locals (report region_file)) =
      filter (\<lambda>(k, v). v = 0) (cells reported_heap (Locals (report region_file)))"
    and c: "Display (report region_file) DisplayType_Locals False h1 =
      (h2, ModuleHeading (Path (report region_file)) #
           LocalsFound (len (Locals (report region_file)) h1) #
           entries (Locals (report region_file)) h1, None)"
    by blast
  from b 4 have d: "cells h1 (Locals (report region_file)) = [(''dummy'', 0)]"
    by simp
  from c d have "Display (report region_file) DisplayType_Locals False h1 =
      (h2, [ModuleHeading ''mod'', LocalsFound 1, Entry ''dummy'' 0], None)"
    by (simp add: len_def entries_def report_def)
  with 1 2 3 a d show ?thesis by blast
qed

section \<open>Modules\<close>

lemma stored_foo: "stored (processUsage (report foo_file) fresh_heap) 2 ''foo'' = Some 1"
  by code_simp

lemma foo_file_ok: "list_all terraform_block (Blocks foo_file)"
  by code_simp

text \<open>
  Claim C4, as the program has it. Take a report whose modules map is none of its other
  maps, and a parsed module whose blocks are as Terraform has them. Then \<open>processUsage\<close>
  runs to its end, and for a module block named \<open>name\<close> the count stored under \<open>name\<close> in
  the modules map is the number of occurrences of the literal text \<open>module.name\<close> in the
  rendered text \<open>Bytes\<close> of the parsed file (the text that \<open>processUsage\<close> searches, not
  the module text as it was written), whatever follows an occurrence (counted from left to
  right without overlap; when no two of them overlap in the rendered text, that is the
  number of all the positions where one starts). For a module named \<open>foo\<close>, every
  position of the rendered text at which \<open>module.foobar\<close> stands is in the count of
  \<open>foo\<close>; in \<open>foo_file\<close>, where \<open>module.foobar\<close> is the only reference, the count of
  \<open>foo\<close> is 1.
\<close>

theorem module_count:
  assumes "parsed m = Some f" and "list_all terraform_block (Blocks f)"
    and "Modules m \<notin> {Variables m, Locals m, DataBlocks m}"
    and "b \<in> set (Blocks f)" and "Type b = ''module''" and "Labels b ! 0 = name"
  shows "(\<exists>h'. processUsage m h = Inr h' \<and>
            map_of (cells h' (Modules m)) name =
              Some (int (occurrences (''module.'' @ name) (Bytes f))) \<and>
            (apart (prefix (''module.'' @ name)) (length (''module.'' @ name)) (Bytes f) \<longrightarrow>
               map_of (cells h' (Modules m)) name =
                 Some (int (count_positions (''module.'' @ name) (Bytes f)))) \<and>
            (name = ''foo'' \<longrightarrow>
               (\<exists>n. map_of (cells h' (Modules m)) ''foo'' = Some n \<and>
                    int (count_positions ''module.foobar'' (Bytes f)) \<le> n))) \<and>
         stored (processUsage (report foo_file) fresh_heap) 2 ''foo'' = Some 1"
proof -
  note run = processUsage_written[OF assms(1,2), of h]
  have count: "map_of (cells (fold assign (concat (map (written m (Bytes f)) (Blocks f))) h)
      (Modules m)) name = Some (int (occurrences (''module.'' @ name) (Bytes f)))"
    using stored_module[OF assms(3,4,5), of "Bytes f" h] assms(6) by simp
  have all: "occurrences (''module.'' @ name) (Bytes f) =
      count_positions (''module.'' @ name) (Bytes f)"
    if "apart (prefix (''module.'' @ name)) (length (''module.'' @ name)) (Bytes f)"
    using occurrences_apart[OF _ that] by (simp add: count_positions_where)
  have foo: "int (count_positions ''module.foobar'' (Bytes f)) \<le>
      int (occurrences (''module.'' @ name) (Bytes f))" if "name = ''foo''"
    using foo_counts_foobar[of "Bytes f"] that by simp
  from run count all foo stored_foo show ?thesis by auto
qed

theorem module_count_witness:
  "parsed (report foo_file) = Some foo_file \<and>
   list_all terraform_block (Blocks foo_file) \<and>
   Type (Blocks foo_file ! 0) = ''module'' \<and>
   Labels (Blocks foo_file ! 0) ! 0 = ''foo'' \<and>
   apart (prefix (''module.'' @ ''foo'')) (length (''module.'' @ ''foo'')) (Bytes foo_file) \<and>
   (\<exists>h'. processUsage (report foo_file) fresh_heap = Inr h' \<and>
      map_of (cells h' (Modules (report foo_file))) ''foo'' =
        Some (int (occurrences (''module.'' @ ''foo'') (Bytes foo_file))) \<and>
      map_of (cells h' (Modules (report foo_file))) ''foo'' =
        Some (int (count_positions (''module.'' @ ''foo'') (Bytes foo_file))) \<and>
      (\<exists>n. map_of (cells h' (Modules (report foo_file))) ''foo'' = Some n \<and>
           int (count_positions ''module.foobar'' (Bytes foo_file)) \<le> n))"
proof -
  have 1: "parsed (report foo_file) = Some foo_file"
    by (simp add: report_def)
  have 3: "Modules (report foo_file) \<notin>
      {Variables (report foo_file), Locals (report foo_file), DataBlocks (report foo_file)}"
    by (simp add: report_def)
  have 4: "Blocks foo_file ! 0 \<in> set (Blocks foo_file)"
    by (simp add: foo_file_def)
  have 5: "Type (Blocks foo_file ! 0) = ''module''"
    by (simp add: foo_file_def)
  have 6: "Labels (Blocks foo_file ! 0) ! 0 = ''foo''"
    by (simp add: foo_file_def)
  from module_count[OF 1 foo_file_ok 3 4 5 6, of fresh_heap] 1 foo_file_ok 5 6 foo_apart
  show ?thesis by blast
qed

text \<open>
  Claim C4 as it is stated fails: the module text of \<open>spaced_module_fs\<close> refers to the
  module \<open>foo\<close> as \<open>module . foo . id\<close> and has no occurrence of the literal text
  \<open>module.foo\<close>, but the rendered text that \<open>processUsage\<close> searches has
  \<open>module.foo.id\<close>, and the count of \<open>foo\<close> in the report of \<open>NewModuleUsage\<close> is 1.
\<close>

theorem module_count_module_text:
  "reported (NewModuleUsage spaced_module_parser spaced_module_fs ''mod'' empty_heap) Modules
     ''foo'' = Some 1 \<and>
   occurrences ''module.foo'' (fst (LoadTfModule spaced_module_fs ''mod'')) = 0 \<and>
   reported (NewModuleUsage spaced_module_parser spaced_module_fs ''mod'' empty_heap) Modules
     ''foo'' \<noteq>
     Some (int (occurrences ''module.foo'' (fst (LoadTfModule spaced_module_fs ''mod''))))"
  by code_simp

section \<open>Module-source decomposition\<close>

text \<open>
  Claim C5. The quoted literal \<open>git::https://example.com/mod.git?ref=v1.2.3\<close> is decomposed
  into the path \<open>git::https://example.com/mod.git\<close> and the version \<open>1.2.3\<close>; the quoted
  literal \<open>./local/path\<close>, which does not follow the convention, gives itself as the path and
  an empty version; and an attribute whose value is not a single quoted string literal gives
  two empty strings.
\<close>

theorem parseModuleSource_decomposition:
  "parseModuleSource (quoted ''git::https://example.com/mod.git?ref=v1.2.3'') =
     (''git::https://example.com/mod.git'', ''1.2.3'') \<and>
   parseModuleSource (quoted ''./local/path'') = (''./local/path'', []) \<and>
   (\<not> single_quoted_literal a \<longrightarrow> parseModuleSource a = ([], []))"
  using parseModuleSource_versioned parseModuleSource_local_path parseModuleSource_not_literal
  by blast

theorem parseModuleSource_decomposition_witness:
  "\<not> single_quoted_literal reference_attribute \<and>
   parseModuleSource reference_attribute = ([], [])"
  using parseModuleSource_decomposition [of reference_attribute]
  by (simp add: single_quoted_literal_def reference_attribute_def expression_def)

section \<open>An unrecognised display type\<close>

text \<open>
  Claim C6. For a display type other than \<open>all\<close>, \<open>variables\<close> and \<open>locals\<close>, \<open>Display\<close>
  returns the error \<open>... is an invalid display Type\<close>, prints nothing and leaves every map
  that was on the heap as it was: no axis is taken by default and nothing is filtered.
\<close>

theorem invalid_display_type:
  assumes "dType \<notin> {DisplayType_All, DisplayType_Variables, DisplayType_Locals}"
  shows "\<exists>h'. Display m dType unusedOnly h =
           (h', [], Some (ErrorString (dType @ '' is an invalid display Type''))) \<and>
         (\<forall>a. a < next_addr h \<longrightarrow> cells h' a = cells h a)"
  using assms
  by (simp add: Display_def make_map_def Let_def Sprintf_invalid del: Sprintf.simps)

theorem invalid_display_type_witness:
  "''modules'' \<notin> {DisplayType_All, DisplayType_Variables, DisplayType_Locals} \<and>
   (\<exists>h'. Display (report region_file) ''modules'' True reported_heap =
      (h', [], Some (ErrorString (''modules'' @ '' is an invalid display Type''))) \<and>
      (\<forall>a. a < next_addr reported_heap \<longrightarrow> cells h' a = cells reported_heap a))"
proof -
  have 1: "''modules'' \<notin> {DisplayType_All, DisplayType_Variables, DisplayType_Locals}"
    by (simp add: DisplayType_All_def DisplayType_Variables_def DisplayType_Locals_def)
  from invalid_display_type[OF 1, of "report region_file" True reported_heap] 1
  show ?thesis by blast
qed

section \<open>The module loader\<close>

text \<open>
  Claim C7, as the loader has it. The loader reads the configuration files directly in the
  directory in the order of their names and returns their contents, each preceded by one
  newline: the result begins with a newline when there is a configuration file, a newline
  stands between two consecutive files, and nothing follows the last. A directory without
  configuration files gives the empty content and no error.
\<close>

theorem LoadTfModule_newline_before_each_file:
  assumes "map_of fs path = Some es" and "\<forall>n \<in> set (map fst es). is_tf n \<longrightarrow> readable es n"
  shows "LoadTfModule fs path =
           (concat (map (\<lambda>n. newline # file_data es n) (filter is_tf (sort (map fst es)))), None) \<and>
         ((\<forall>n \<in> set (map fst es). \<not> is_tf n) \<longrightarrow> LoadTfModule fs path = ([], None))"
proof -
  from assms(2) have "\<forall>n \<in> set (sort (map fst es)). is_tf n \<longrightarrow> readable es n"
    by simp
  from LoadTfModule_loop_readable[OF assms(1) this, of "[]"]
  have l: "LoadTfModule fs path =
      (concat (map (\<lambda>n. newline # file_data es n) (filter is_tf (sort (map fst es)))), None)"
    using assms(1) by (simp add: LoadTfModule_def os_ReadDir_def)
  moreover have "filter is_tf (sort (map fst es)) = []" if "\<forall>n \<in> set (map fst es). \<not> is_tf n"
    using that by (auto simp: filter_empty_conv)
  ultimately show ?thesis by simp
qed

theorem LoadTfModule_newline_before_each_file_witness:
  "map_of two_files_fs ''mod'' =
     Some [(''b.tf'', RegularFile ''B''), (''notes.txt'', RegularFile ''N''),
           (''a.tf'', RegularFile ''A''), (''sub'', Unreadable)] \<and>
   LoadTfModule two_files_fs ''mod'' = (newline # ''A'' @ newline # ''B'', None) \<and>
   map_of two_files_fs ''empty'' = Some [(''notes.txt'', RegularFile ''N'')] \<and>
   LoadTfModule two_files_fs ''empty'' = ([], None)"
proof -
  let ?es = "[(''b.tf'', RegularFile ''B''), (''notes.txt'', RegularFile ''N''),
              (''a.tf'', RegularFile ''A''), (''sub'', Unreadable)]"
  let ?none = "[(''notes.txt'', RegularFile ''N'')]"
  have 1: "map_of two_files_fs ''mod'' = Some ?es"
    by (simp add: two_files_fs_def)
  have 2: "\<forall>n \<in> set (map fst ?es). is_tf n \<longrightarrow> readable ?es n"
    by code_simp
  have 3: "concat (map (\<lambda>n. newline # file_data ?es n) (filter is_tf (sort (map fst ?es)))) =
      newline # ''A'' @ newline # ''B''"
    by code_simp
  have 4: "map_of two_files_fs ''empty'' = Some ?none"
    by (simp add: two_files_fs_def)
  have 5: "\<forall>n \<in> set (map fst ?none). is_tf n \<longrightarrow> readable ?none n"
    by code_simp
  have 6: "\<forall>n \<in> set (map fst ?none). \<not> is_tf n"
    by code_simp
  from LoadTfModule_newline_before_each_file[OF 1 2] 3
  have a: "LoadTfModule two_files_fs ''mod'' = (newline # ''A'' @ newline # ''B'', None)"
    by simp
  from LoadTfModule_newline_before_each_file[OF 4 5] 6
  have b: "LoadTfModule two_files_fs ''empty'' = ([], None)"
    by blast
  from 1 a 4 b show ?thesis by blast
qed

text \<open>
  Claim C7 as it is stated fails: for the directory with the files \<open>a.tf\<close> and \<open>b.tf\<close>
  the loader does not return the two contents joined by one newline, since its result
  begins with a newline.
\<close>

theorem LoadTfModule_leading_newline:
  "fst (LoadTfModule two_files_fs ''mod'') \<noteq> joined [''A'', ''B'']"
  by code_simp

section \<open>Duplicate declarations\<close>

lemma test_loaded: "LoadTfModule test_fs ''mod'' = (newline # test_source, None)"
  by code_simp

lemma test_file_ok: "list_all terraform_block (Blocks test_file)"
  by code_simp

text \<open>
  Claim C8. When the module loads and parses, its blocks are as Terraform has them, and two
  of them, at the positions \<open>i < j\<close>, are \<open>module\<close> blocks named \<open>test\<close>, then
  \<open>NewModuleUsage\<close> returns a report and no error, and the modules map of the report has
  exactly one entry with the key \<open>test\<close>; its count is the one that \<open>countPattern\<close>
  computes for the later declaration.
\<close>

theorem duplicate_module_one_entry:
  assumes "LoadTfModule fs path = (src, None)" and "ParseConfig src = Inr f"
    and "list_all terraform_block (Blocks f)"
    and "i < j" and "j < length (Blocks f)"
    and "Type (Blocks f ! i) = ''module''" and "Labels (Blocks f ! i) ! 0 = ''test''"
    and "Type (Blocks f ! j) = ''module''" and "Labels (Blocks f ! j) ! 0 = ''test''"
  shows "\<exists>h' m n. NewModuleUsage ParseConfig fs path h = Inr (h', Some m, None) \<and>
           countPattern (Bytes f)
             (Sprintf (''module'' @ [bslash] @ ''.%s'') [Labels (Blocks f ! j) ! 0]) = Inr n \<and>
           filter (\<lambda>e. fst e = ''test'') (cells h' (Modules m)) = [(''test'', n)]"
proof -
  let ?m = "new_report path h f"
  let ?h' = "fold assign (concat (map (written ?m (Bytes f)) (Blocks f))) (allocated h)"
  let ?n = "int (occurrences (''module.'' @ ''test'') (Bytes f))"
  have run: "NewModuleUsage ParseConfig fs path h = Inr (?h', Some ?m, None)"
    using assms(1,2,3) by (rule NewModuleUsage_result)
  have plain: "plain_name ''test''"
    by code_simp
  have count: "countPattern (Bytes f)
      (Sprintf (''module'' @ [bslash] @ ''.%s'') [Labels (Blocks f ! j) ! 0]) = Inr ?n"
    unfolding assms(9) by (rule countPattern_module[OF plain])
  have apart: "Modules ?m \<notin> {Variables ?m, Locals ?m, DataBlocks ?m}"
    by (simp add: new_report_def)
  have mem: "Blocks f ! j \<in> set (Blocks f)"
    using assms(5) by simp
  have look: "map_of (cells ?h' (Modules ?m)) ''test'' = Some ?n"
    using stored_module[OF apart mem assms(8), of "Bytes f" "allocated h"] assms(9)
    by simp
  have "distinct (map fst (cells (allocated h) (Modules ?m)))"
    by (simp add: allocated_def new_report_def)
  then have "distinct (map fst (cells ?h' (Modules ?m)))"
    by (rule fold_assign_distinct)
  from filter_key[OF this look] run count show ?thesis
    by blast
qed

theorem duplicate_module_one_entry_witness:
  "LoadTfModule test_fs ''mod'' = (newline # test_source, None) \<and>
   test_parser (newline # test_source) = Inr test_file \<and>
   list_all terraform_block (Blocks test_file) \<and>
   Type (Blocks test_file ! 0) = ''module'' \<and> Labels (Blocks test_file ! 0) ! 0 = ''test'' \<and>
   Type (Blocks test_file ! 1) = ''module'' \<and> Labels (Blocks test_file ! 1) ! 0 = ''test'' \<and>
   (\<exists>h' m n. NewModuleUsage test_parser test_fs ''mod'' \<lparr>next_addr = 0, cells = (\<lambda>a. [])\<rparr> =
        Inr (h', Some m, None) \<and>
      countPattern (Bytes test_file)
        (Sprintf (''module'' @ [bslash] @ ''.%s'') [Labels (Blocks test_file ! 1) ! 0]) = Inr n \<and>
      filter (\<lambda>e. fst e = ''test'') (cells h' (Modules m)) = [(''test'', n)])"
proof -
  have 2: "test_parser (newline # test_source) = Inr test_file"
    by (simp add: test_parser_def)
  have 4: "(0::nat) < 1" by simp
  have 5: "1 < length (Blocks test_file)"
    by (simp add: test_file_def)
  have 6: "Type (Blocks test_file ! 0) = ''module''"
    and 7: "Labels (Blocks test_file ! 0) ! 0 = ''test''"
    and 8: "Type (Blocks test_file ! 1) = ''module''"
    and 9: "Labels (Blocks test_file ! 1) ! 0 = ''test''"
    by (simp_all add: test_file_def)
  from duplicate_module_one_entry[where ParseConfig = test_parser and fs = test_fs
        and path = "''mod''" and src = "newline # test_source" and f = test_file
        and i = 0 and j = 1 and h = "\<lparr>next_addr = 0, cells = (\<lambda>a. [])\<rparr>",
      OF test_loaded 2 test_file_ok 4 5 6 7 8 9]
    test_loaded 2 test_file_ok 6 7 8 9
  show ?thesis by blast
qed

section \<open>Locals\<close>

lemma stored_other_tag:
  "stored (processUsage (report locals_file) fresh_heap) 1 ''other_tag'' = Some 1"
  by code_simp

lemma locals_file_ok: "list_all terraform_block (Blocks locals_file)"
  by code_simp

text \<open>
  Claim C9, as the program has it. The count of a local is taken over the whole rendered
  text \<open>Bytes\<close> of the parsed file (the text that \<open>processUsage\<close> searches, not the
  module text as it was written). Take a report whose locals map is none of its other
  maps, and a parsed module whose blocks are as Terraform has them. Then for an attribute
  \<open>a\<close> of a \<open>locals\<close> block the count stored under \<open>a\<close> is the number of
  non-overlapping occurrences of \<open>local.a\<close> before a non-word character in the whole
  rendered text (the number of all of them, when no two overlap), and wherever the
  rendered text has \<open>local.a\<close> before a non-word character, inside a declaration block
  or not, the count is at least 1. In \<open>locals_file\<close> the only reference to
  \<open>local.other_tag\<close> is in the value of \<open>tags\<close> in the same \<open>locals\<close> block, and the
  count of \<open>other_tag\<close> is 1.
\<close>

theorem local_count_whole_text:
  assumes "parsed m = Some f" and "list_all terraform_block (Blocks f)"
    and "Locals m \<notin> {Variables m, Modules m, DataBlocks m}"
    and "b \<in> set (Blocks f)" and "Type b = ''locals''" and "a \<in> fst ` set (Attributes b)"
  shows "(\<exists>h'. processUsage m h = Inr h' \<and>
            map_of (cells h' (Locals m)) a =
              Some (int (occurrences_then_nonword (''local.'' @ a) (Bytes f))) \<and>
            (apart (then_nonword (''local.'' @ a)) (Suc (length (''local.'' @ a))) (Bytes f) \<longrightarrow>
               map_of (cells h' (Locals m)) a =
                 Some (int (count_where (then_nonword (''local.'' @ a)) (Bytes f)))) \<and>
            (\<forall>pre c post. Bytes f = pre @ (''local.'' @ a) @ c # post \<and> \<not> is_word c \<longrightarrow>
               (\<exists>n. map_of (cells h' (Locals m)) a = Some n \<and> 1 \<le> n))) \<and>
         stored (processUsage (report locals_file) fresh_heap) 1 ''other_tag'' = Some 1"
proof -
  have "1 \<le> int (occurrences_then_nonword (''local.'' @ a) (Bytes f))"
    if "Bytes f = pre @ (''local.'' @ a) @ c # post" and "\<not> is_word c" for pre c post
  proof -
    have "0 < occurrences_then_nonword (''local.'' @ a) (Bytes f)"
      unfolding that(1) by (rule occurrence_counted[OF that(2)])
    then show ?thesis by simp
  qed
  then have every: "\<forall>pre c post. Bytes f = pre @ (''local.'' @ a) @ c # post \<and> \<not> is_word c \<longrightarrow>
      1 \<le> int (occurrences_then_nonword (''local.'' @ a) (Bytes f))"
    by blast
  note run = processUsage_written[OF assms(1,2), of h]
  note count = stored_local[OF assms(3,4,5,6), of "Bytes f" h]
  note all = occurrences_then_nonword_apart[of "''local.'' @ a" "Bytes f"]
  from run count every all stored_other_tag show ?thesis by (metis (no_types, lifting))
qed

theorem local_count_whole_text_witness:
  "parsed (report locals_file) = Some locals_file \<and>
   list_all terraform_block (Blocks locals_file) \<and>
   Type (Blocks locals_file ! 0) = ''locals'' \<and>
   ''other_tag'' \<in> fst ` set (Attributes (Blocks locals_file ! 0)) \<and>
   apart (then_nonword (''local.'' @ ''other_tag'')) (Suc (length (''local.'' @ ''other_tag'')))
     (Bytes locals_file) \<and>
   (\<exists>h'. processUsage (report locals_file) fresh_heap = Inr h' \<and>
      map_of (cells h' (Locals (report locals_file))) ''other_tag'' =
        Some (int (occurrences_then_nonword (''local.'' @ ''other_tag'') (Bytes locals_file))) \<and>
      map_of (cells h' (Locals (report locals_file))) ''other_tag'' =
        Some (int (count_where (then_nonword (''local.'' @ ''other_tag'')) (Bytes locals_file))))"
proof -
  have 1: "parsed (report locals_file) = Some locals_file"
    by (simp add: report_def)
  have 3: "Locals (report locals_file) \<notin>
      {Variables (report locals_file), Modules (report locals_file),
       DataBlocks (report locals_file)}"
    by (simp add: report_def)
  have 4: "Blocks locals_file ! 0 \<in> set (Blocks locals_file)"
    by (simp add: locals_file_def)
  have 5: "Type (Blocks locals_file ! 0) = ''locals''"
    by (simp add: locals_file_def)
  have 6: "''other_tag'' \<in> fst ` set (Attributes (Blocks locals_file ! 0))"
    by (simp add: locals_file_def)
  from local_count_whole_text[OF 1 locals_file_ok 3 4 5 6, of fresh_heap]
    1 locals_file_ok 5 6 other_tag_apart
  show ?thesis by blast
qed

text \<open>
  Claim C9 as it is stated fails: the module text of \<open>spaced_local_fs\<close> refers to the
  local \<open>other_tag\<close> as \<open>local . other_tag\<close> and has no occurrence of the literal text
  \<open>local.other_tag\<close>, but the rendered text that \<open>processUsage\<close> searches has
  \<open>local.other_tag\<close> before a newline, and the count of \<open>other_tag\<close> in the report of
  \<open>NewModuleUsage\<close> is 1.
\<close>

theorem local_count_module_text:
  "reported (NewModuleUsage spaced_local_parser spaced_local_fs ''mod'' empty_heap) Locals
     ''other_tag'' = Some 1 \<and>
   occurrences_then_nonword ''local.other_tag'' (fst (LoadTfModule spaced_local_fs ''mod'')) = 0 \<and>
   reported (NewModuleUsage spaced_local_parser spaced_local_fs ''mod'' empty_heap) Locals
     ''other_tag'' \<noteq>
     Some (int (occurrences_then_nonword ''local.other_tag''
                  (fst (LoadTfModule spaced_local_fs ''mod''))))"
  by code_simp

section \<open>A reference at the end of the text\<close>

lemma stored_x_at_end:
  "suffix ''var.x'' (Bytes end_file) \<and> Type (Blocks end_file ! 0) = ''variable'' \<and>
   Labels (Blocks end_file ! 0) = [''x''] \<and>
   stored (processUsage (report end_file) fresh_heap) 0 ''x'' = Some 0"
  by code_simp

lemma no_match_at_end_of_text:
  "\<forall>e. (length pre, e) \<notin>
     set (FindAllStringIndex (foldr (\<lambda>c. Cat (Lit c)) lit (Cat NotWord EmptyMatch)) (pre @ lit))"
proof -
  let ?re = "foldr (\<lambda>c. Cat (Lit c)) lit (Cat NotWord EmptyMatch)"
  have "matches ?re (drop (length pre) (pre @ lit), Map.empty) = []"
    by (simp only: matches_then_nonword) (simp add: then_nonword_def)
  then show ?thesis
    unfolding FindAllStringIndex_def using FindAll_reported by blast
qed

lemma no_var_match_at_end:
  assumes "plain_name name"
  shows "\<exists>re. compile (Sprintf (''var'' @ [bslash] @ ''.%s'' @ [bslash] @ ''W'') [name]) = Some re \<and>
           (\<forall>e. (length pre, e) \<notin> set (FindAllStringIndex re (pre @ ''var.'' @ name)))"
  using compile_var[OF assms] no_match_at_end_of_text[of pre "''var.'' @ name"]
  by (simp only: Sprintf_var) blast

lemma no_local_match_at_end:
  assumes "plain_name name"
  shows "\<exists>re. compile (Sprintf (''local'' @ [bslash] @ ''.%s'' @ [bslash] @ ''W'') [name]) = Some re \<and>
           (\<forall>e. (length pre, e) \<notin> set (FindAllStringIndex re (pre @ ''local.'' @ name)))"
  using compile_local[OF assms] no_match_at_end_of_text[of pre "''local.'' @ name"]
  by (simp only: Sprintf_local) blast

text \<open>
  Claim C10. The patterns of a variable and of a local ask for a non-word character after
  the name, so when the text ends with \<open>var.name\<close> (or with \<open>local.name\<close>), whatever
  precedes it, \<open>FindAllStringIndex\<close> reports no match at the position where that final
  reference begins. The text of \<open>end_file\<close> ends with \<open>var.x\<close>, the variable \<open>x\<close> is
  declared in it, and the count stored for \<open>x\<close> is 0.
\<close>

theorem reference_at_end_not_counted:
  "(plain_name name \<longrightarrow>
      (\<exists>re. compile (Sprintf (''var'' @ [bslash] @ ''.%s'' @ [bslash] @ ''W'') [name]) = Some re \<and>
         (\<forall>e. (length pre, e) \<notin> set (FindAllStringIndex re (pre @ ''var.'' @ name)))) \<and>
      (\<exists>re. compile (Sprintf (''local'' @ [bslash] @ ''.%s'' @ [bslash] @ ''W'') [name]) = Some re \<and>
         (\<forall>e. (length pre, e) \<notin> set (FindAllStringIndex re (pre @ ''local.'' @ name))))) \<and>
   suffix ''var.x'' (Bytes end_file) \<and> Type (Blocks end_file ! 0) = ''variable'' \<and>
   Labels (Blocks end_file ! 0) = [''x''] \<and>
   stored (processUsage (report end_file) fresh_heap) 0 ''x'' = Some 0"
  using no_var_match_at_end[of name pre] no_local_match_at_end[of name pre] stored_x_at_end
  by blast

theorem reference_at_end_not_counted_witness:
  "plain_name ''x'' \<and>
   (\<exists>re. compile (Sprintf (''var'' @ [bslash] @ ''.%s'' @ [bslash] @ ''W'') [''x'']) = Some re \<and>
      (\<forall>e. (length ''y = '', e) \<notin> set (FindAllStringIndex re (''y = '' @ ''var.'' @ ''x''))))"
proof -
  have p: "plain_name ''x''" by code_simp
  from reference_at_end_not_counted[of "''x''" "''y = ''"] p show ?thesis by blast
qed

end
